theory Spec2Isabelle
  imports Complex_Main "HOL-Library.Multiset"
begin

section \<open>Time\<close>

text \<open>
  A JavaScript \<open>Date\<close> is a number of milliseconds since the epoch; differences of
  dates (\<open>targetDate - now\<close>) and comparisons (\<open>now >= earlyStartTime\<close>) are
  differences and comparisons of these numbers. A \<open>new Date()\<close> of the source is a
  clock reading that the model takes as an argument, or derives from the runtime's
  timers where the source waits for one.
\<close>

type_synonym msec = int

definition PROCESS_DURATION_MS :: msec where
  "PROCESS_DURATION_MS = 15000"

definition checkInterval :: msec where
  "checkInterval = 1000"

section \<open>The dual-timer guard of the command-line scheduler\<close>

text \<open>
  \<open>scheduleWithPeriodicChecks(targetDate)\<close> in \<open>schedule-screenshot.js\<close> registers
  a \<open>setInterval\<close> callback (every \<open>checkInterval\<close> ms) and, when the early start
  time is still ahead, one backup \<open>setTimeout\<close>. Both callbacks share the local
  variable \<open>hasExecuted\<close>. The guard's state is this variable, what the runtime still
  holds (the interval until \<open>clearInterval\<close>, the pending timeout) and, for the
  properties below, the clock readings at which
  \<open>takeScreenshotAtExactTime(targetDate)\<close> was called. The delay of the backup
  timeout is kept as the source computes it.
\<close>

record guard =
  targetDate :: msec
  earlyStartTime :: msec
  hasExecuted :: bool
  intervalActive :: bool
  backupTimer :: "msec option"
  fired :: "msec list"

definition scheduleWithPeriodicChecks :: "msec \<Rightarrow> msec \<Rightarrow> guard" where
  "scheduleWithPeriodicChecks target now =
     (let early = target - PROCESS_DURATION_MS;
          msUntilEarlyStart = early - now
      in \<lparr> targetDate = target,
           earlyStartTime = early,
           hasExecuted = False,
           intervalActive = True,
           backupTimer = (if msUntilEarlyStart > 0 then Some msUntilEarlyStart else None),
           fired = [] \<rparr>)"

text \<open>
  The body of the interval callback, with \<open>now\<close> the clock it reads. The countdown
  line it logs every 30 seconds changes no state and is left out. The call of
  \<open>takeScreenshotAtExactTime\<close> is recorded in \<open>fired\<close>; flag and
  \<open>clearInterval\<close> come before the first \<open>await\<close>, so the body up to the call is
  one uninterrupted step.
\<close>

definition intervalCallback :: "msec \<Rightarrow> guard \<Rightarrow> guard" where
  "intervalCallback now g =
     (if now \<ge> earlyStartTime g \<and> \<not> hasExecuted g
      then g\<lparr> hasExecuted := True, intervalActive := False, fired := fired g @ [now] \<rparr>
      else g)"

text \<open>The body of the backup \<open>setTimeout\<close> callback, run by the runtime at clock \<open>now\<close>.\<close>

definition backupCallback :: "msec \<Rightarrow> guard \<Rightarrow> guard" where
  "backupCallback now g =
     (if \<not> hasExecuted g
      then g\<lparr> hasExecuted := True, intervalActive := False, fired := fired g @ [now] \<rparr>
      else g)"

text \<open>
  What the runtime does: an interval that was cleared runs no callback, a timeout runs
  its callback once. An event carries the wall clock at which the callback runs.
\<close>

datatype timer_event = IntervalTick msec | BackupTimeout msec

fun eventTime :: "timer_event \<Rightarrow> msec" where
  "eventTime (IntervalTick t) = t"
| "eventTime (BackupTimeout t) = t"

fun deliver :: "timer_event \<Rightarrow> guard \<Rightarrow> guard" where
  "deliver (IntervalTick t) g = (if intervalActive g then intervalCallback t g else g)"
| "deliver (BackupTimeout t) g =
     (case backupTimer g of
        None \<Rightarrow> g
      | Some d \<Rightarrow> backupCallback t (g\<lparr> backupTimer := None \<rparr>))"

fun runGuard :: "guard \<Rightarrow> timer_event list \<Rightarrow> guard" where
  "runGuard g [] = g"
| "runGuard g (e # es) = runGuard (deliver e g) es"

text \<open>
  An event reaches the guard when it is a polling tick at or after the early start
  time, or the backup timeout of a guard that armed one.
\<close>

fun reachesGuard :: "guard \<Rightarrow> timer_event \<Rightarrow> bool" where
  "reachesGuard g (IntervalTick t) = (earlyStartTime g \<le> t)"
| "reachesGuard g (BackupTimeout t) = (backupTimer g \<noteq> None)"

text \<open>The polling ticks of a punctual runtime: one every \<open>checkInterval\<close> after arming.\<close>

definition pollTicks :: "msec \<Rightarrow> nat \<Rightarrow> timer_event list" where
  "pollTicks now n = map (\<lambda>k. IntervalTick (now + checkInterval * int k)) [1..<Suc n]"

text \<open>
  The timers of Node. \<open>setTimeout(f, delay)\<close> replaces a delay that is not between
  1 and \<open>2^31 - 1\<close> ms by 1 ms, and runs \<open>f\<close> once that many milliseconds have
  passed, not before. So the backup timeout of a guard armed at clock \<open>now\<close> is due
  at \<open>now\<close> plus the delay the runtime makes of the one the guard computed, and the
  first polling tick one interval after \<open>now\<close>.
\<close>

definition TIMEOUT_MAX :: msec where
  "TIMEOUT_MAX = 2147483647"

definition nodeTimeout :: "msec \<Rightarrow> msec" where
  "nodeTimeout delay = (if 1 \<le> delay \<and> delay \<le> TIMEOUT_MAX then delay else 1)"

definition backupDue :: "msec \<Rightarrow> guard \<Rightarrow> msec option" where
  "backupDue now g = map_option (\<lambda>delay. now + nodeTimeout delay) (backupTimer g)"

text \<open>A trace in which the runtime runs no callback before it is due.\<close>

fun notBeforeDue :: "msec \<Rightarrow> guard \<Rightarrow> timer_event \<Rightarrow> bool" where
  "notBeforeDue now g (IntervalTick t) = (now + checkInterval \<le> t)"
| "notBeforeDue now g (BackupTimeout t) =
     (case backupDue now g of None \<Rightarrow> False | Some due \<Rightarrow> due \<le> t)"

definition notEarly :: "msec \<Rightarrow> guard \<Rightarrow> timer_event list \<Rightarrow> bool" where
  "notEarly now g es = list_all (notBeforeDue now g) es"

text \<open>
  The trace of a punctual runtime over the first \<open>n\<close> polling ticks: every callback
  runs exactly when it is due, the backup timeout between the ticks before and the
  ticks from its due time on.
\<close>

definition punctualTrace :: "msec \<Rightarrow> guard \<Rightarrow> nat \<Rightarrow> timer_event list" where
  "punctualTrace now g n =
     (case backupDue now g of
        None \<Rightarrow> pollTicks now n
      | Some due \<Rightarrow>
          filter (\<lambda>e. eventTime e < due) (pollTicks now n) @ [BackupTimeout due] @
          filter (\<lambda>e. due \<le> eventTime e) (pollTicks now n))"

section \<open>The command line of the scheduler\<close>

text \<open>
  \<open>main()\<close> of \<open>schedule-screenshot.js\<close>. \<open>args\<close> is \<open>process.argv.slice(2)\<close>;
  \<open>dateParse\<close> stands for \<open>new Date(string).getTime()\<close>, with \<open>None\<close> for
  \<open>NaN\<close>; \<open>now\<close> is the clock read by \<open>main\<close> and \<open>now'\<close> the one read by
  \<open>scheduleWithPeriodicChecks\<close>. The process either exits with a status, after lines
  on standard output and standard error, or keeps running with an armed guard.
\<close>

datatype cli_outcome =
    Exit int "string list" "string list"
  | Running guard

definition usage :: "string list" where
  "usage = [''Usage: node schedule-screenshot.js \"2025-11-28T13:45:00+08:00\"'',
            ''Format: YYYY-MM-DDTHH:MM:SS+08:00 (Hong Kong timezone)'']"

definition main :: "(string \<Rightarrow> msec option) \<Rightarrow> msec \<Rightarrow> msec \<Rightarrow> string list \<Rightarrow> cli_outcome" where
  "main dateParse now now' args =
     (case args of
        [] \<Rightarrow> Exit 0 usage []
      | datetimeString # _ \<Rightarrow>
          if datetimeString = ''--help'' then Exit 0 usage []
          else (case dateParse datetimeString of
                  None \<Rightarrow> Exit 1 [''Please use format: YYYY-MM-DDTHH:MM:SS+08:00'']
                              [''Invalid date/time format: '' @ datetimeString]
                | Some target \<Rightarrow>
                    if target \<le> now then Exit 1 [] [''The specified time is in the past!'']
                    else Running (scheduleWithPeriodicChecks target now')))"

text \<open>
  The invariant of a guard since it was armed as \<open>g0\<close>: the interval is registered
  exactly as long as the flag is down, the callback has run once if the flag is up and
  never otherwise, and the backup timeout is still the one that was armed unless the
  flag is up.
\<close>

definition guardInv :: "guard \<Rightarrow> guard \<Rightarrow> bool" where
  "guardInv g0 g \<longleftrightarrow>
     earlyStartTime g = earlyStartTime g0 \<and>
     intervalActive g = (\<not> hasExecuted g) \<and>
     (if hasExecuted g then length (fired g) = 1 else fired g = []) \<and>
     (hasExecuted g \<or> backupTimer g = backupTimer g0)"

section \<open>The job registry of the HTTP service\<close>

text \<open>
  \<open>server.js\<close>. \<open>req.body\<close> is the object that \<open>express.json()\<close> parsed, or
  \<open>undefined\<close> where the framework leaves it so for a request without a parsed body;
  a field that is absent reads as \<open>undefined\<close>. Values are what \<open>JSON.parse\<close>
  gives. A number is a double: \<open>JNum m e\<close> is the finite double \<open>m * 2^e\<close> (with
  \<open>|m| < 2^53\<close>), \<open>JInfinity\<close> a literal too large for a double, of either sign.
  Of an object or array only the conversion to a primitive matters, which \<open>new Date\<close>
  performs: \<open>JObject s\<close> converts to the string \<open>s\<close>, \<open>JUnconvertible e\<close> is one
  whose conversion throws a \<open>TypeError\<close> with message \<open>e\<close> (as
  \<open>{"toString": 1}\<close> does, whose \<open>toString\<close> is not a function).
\<close>

datatype jsval =
    JUndefined | JNull | JBool bool | JNum int int | JInfinity | JStr string
  | JObject string | JUnconvertible string

definition doubleValue :: "int \<Rightarrow> int \<Rightarrow> rat" where
  "doubleValue m e =
     (if 0 \<le> e then of_int (m * 2 ^ nat e) else of_int m / of_int (2 ^ nat (- e)))"

fun truthy :: "jsval \<Rightarrow> bool" where
  "truthy JUndefined = False"
| "truthy JNull = False"
| "truthy (JBool b) = b"
| "truthy (JNum m e) = (m \<noteq> 0)"
| "truthy JInfinity = True"
| "truthy (JStr s) = (s \<noteq> [])"
| "truthy (JObject s) = True"
| "truthy (JUnconvertible e) = True"

text \<open>
  \<open>new Date(v)\<close> followed by \<open>getTime()\<close>: \<open>Inl\<close> when the constructor throws,
  \<open>Inr None\<close> for an invalid date (\<open>NaN\<close>). A number is a time value if it is
  within 8.64e15 ms of the epoch, and is truncated towards zero; a string is parsed,
  by \<open>dateParse\<close>; an object or array is converted to a primitive first.
\<close>

fun newDate :: "(string \<Rightarrow> msec option) \<Rightarrow> jsval \<Rightarrow> string + msec option" where
  "newDate dateParse JUndefined = Inr None"
| "newDate dateParse JNull = Inr (Some 0)"
| "newDate dateParse (JBool b) = Inr (Some (if b then 1 else 0))"
| "newDate dateParse (JNum m e) =
     Inr (if \<bar>doubleValue m e\<bar> \<le> 8640000000000000
          then Some (if 0 \<le> doubleValue m e then \<lfloor>doubleValue m e\<rfloor> else \<lceil>doubleValue m e\<rceil>)
          else None)"
| "newDate dateParse JInfinity = Inr None"
| "newDate dateParse (JStr s) = Inr (dateParse s)"
| "newDate dateParse (JObject s) = Inr (dateParse s)"
| "newDate dateParse (JUnconvertible e) = Inl e"

record schedule_body =
  datetime :: jsval
  recurring :: jsval

text \<open>
  The scheduling library is outside the repository. Its state is the set of one-off
  invocations it still holds, by job handle; what it keeps for each is the date the
  job was scheduled for and the closure of the callback. \<open>schedule.scheduleJob\<close>
  returns a job or \<open>null\<close>; which of the two is an input of the request.
\<close>

type_synonym handle = nat

record job_closure =
  fireAt :: msec
  forJob :: string
  forTarget :: msec
  isRecurring :: jsval

record job_info =
  job_id :: string
  job_datetime :: msec
  job_recurring :: jsval
  job_scheduled :: msec
  job_handle :: "handle option"

record server =
  scheduledJobs :: "string \<rightharpoonup> job_info"
  timers :: "handle \<rightharpoonup> job_closure"

definition initServer :: server where
  "initServer = \<lparr> scheduledJobs = Map.empty, timers = Map.empty \<rparr>"

record stats =
  birthtime :: msec
  size_bytes :: nat
  is_file :: bool

record screenshot_entry =
  filename :: string
  path :: string
  created :: msec
  size_of :: nat

datatype http_response =
    ErrorResponse nat string
  | ScheduleOk string msec
  | CancelOk
  | ScreenshotList "screenshot_entry list"
  | SendFile string

fun statusCode :: "http_response \<Rightarrow> nat" where
  "statusCode (ErrorResponse n m) = n"
| "statusCode (ScheduleOk j t) = 200"
| "statusCode CancelOk = 200"
| "statusCode (ScreenshotList fs) = 200"
| "statusCode (SendFile p) = 200"

text \<open>
  \<open>POST /api/schedule\<close>. \<open>now\<close> is the clock of the future check, \<open>jobId\<close> the
  fresh identifier, \<open>job\<close> what \<open>schedule.scheduleJob(earlyStartTime, ...)\<close>
  returned, \<open>now'\<close> the clock stored as \<open>scheduled\<close>. The source stores the ISO
  rendering of the two dates; the model keeps the time values. The whole handler is
  one \<open>try\<close> block whose \<open>catch\<close> answers status 500 with the message of the
  exception: destructuring an undefined \<open>req.body\<close> throws (the message is the
  engine's, without its quotation marks), and so does \<open>new Date(datetime)\<close> for a
  value that cannot be converted.
\<close>

definition post_schedule ::
  "(string \<Rightarrow> msec option) \<Rightarrow> msec \<Rightarrow> string \<Rightarrow> handle option \<Rightarrow> msec \<Rightarrow>
   schedule_body option \<Rightarrow> server \<Rightarrow> http_response \<times> server" where
  "post_schedule dateParse now jobId job now' body s =
     (case body of
        None \<Rightarrow>
          (ErrorResponse 500
             ''Cannot destructure property datetime of req.body as it is undefined.'', s)
      | Some b \<Rightarrow>
          if \<not> truthy (datetime b) then (ErrorResponse 400 ''datetime is required'', s)
          else case newDate dateParse (datetime b) of
            Inl e \<Rightarrow> (ErrorResponse 500 e, s)
          | Inr None \<Rightarrow> (ErrorResponse 400 ''Invalid datetime format'', s)
          | Inr (Some target) \<Rightarrow>
              if target \<le> now then (ErrorResponse 400 ''datetime must be in the future'', s)
              else
                (let early = target - PROCESS_DURATION_MS
                 in case job of
                   None \<Rightarrow> (ErrorResponse 500 ''Failed to schedule job'', s)
                 | Some h \<Rightarrow>
                     (ScheduleOk jobId target,
                      s\<lparr> timers := (timers s)(h \<mapsto>
                            \<lparr> fireAt = early, forJob = jobId, forTarget = target,
                              isRecurring = recurring b \<rparr>),
                         scheduledJobs := (scheduledJobs s)(jobId \<mapsto>
                            \<lparr> job_id = jobId, job_datetime = target,
                              job_recurring = recurring b, job_scheduled = now',
                              job_handle = job \<rparr>) \<rparr>)))"

text \<open>
  \<open>DELETE /api/jobs/:jobId\<close>. \<open>jobInfo.job.cancel()\<close> on a \<open>null\<close> job would
  throw before the entry is deleted; the framework answers an uncaught exception of a
  handler with status 500.
\<close>

definition delete_job :: "string \<Rightarrow> server \<Rightarrow> http_response \<times> server" where
  "delete_job jobId s =
     (case scheduledJobs s jobId of
        None \<Rightarrow> (ErrorResponse 404 ''Job not found'', s)
      | Some jobInfo \<Rightarrow>
          (case job_handle jobInfo of
             None \<Rightarrow> (ErrorResponse 500 ''Cannot read properties of null'', s)
           | Some h \<Rightarrow>
               (CancelOk,
                s\<lparr> timers := (timers s)(h := None),
                   scheduledJobs := (scheduledJobs s)(jobId := None) \<rparr>)))"

text \<open>
  The library runs the callback of a pending one-off job and forgets the invocation.
  The callback awaits the capture, looks at the \<open>success\<close> flag of the result (for
  the log only) and then, for a job that is not recurring, deletes the registry entry;
  if the awaited capture rejects, nothing after the \<open>await\<close> runs.
\<close>

definition timerFires :: "handle \<Rightarrow> server \<Rightarrow> server" where
  "timerFires h s = s\<lparr> timers := (timers s)(h := None) \<rparr>"

fun jobCallbackEnd :: "job_closure \<Rightarrow> string + bool \<Rightarrow> server \<Rightarrow> server" where
  "jobCallbackEnd c (Inl e) s = s"
| "jobCallbackEnd c (Inr ok) s =
     (if \<not> truthy (isRecurring c)
      then s\<lparr> scheduledJobs := (scheduledJobs s)(forJob c := None) \<rparr>
      else s)"

inductive reachable :: "server \<Rightarrow> bool" where
  start: "reachable initServer"
| schedule: "reachable s \<Longrightarrow>
     reachable (snd (post_schedule dateParse now jobId job now' body s))"
| cancel: "reachable s \<Longrightarrow> reachable (snd (delete_job jobId s))"
| fire: "reachable s \<Longrightarrow> reachable (timerFires h s)"
| finish: "reachable s \<Longrightarrow> reachable (jobCallbackEnd c r s)"

definition handlesPresent :: "server \<Rightarrow> bool" where
  "handlesPresent s \<longleftrightarrow>
     (\<forall>jobId jobInfo. scheduledJobs s jobId = Some jobInfo \<longrightarrow> job_handle jobInfo \<noteq> None)"


text \<open>
  A request for 2030-01-01T00:00:00Z made on 2025-11-28, the state after it was
  accepted with job handle 7, and the state after the timer of a recurring job has
  fired and its capture has completed.
\<close>

definition exampleRequest :: "bool \<Rightarrow> schedule_body" where
  "exampleRequest r = \<lparr> datetime = JStr ''2030-01-01T00:00:00Z'', recurring = JBool r \<rparr>"

definition exampleBody :: "bool \<Rightarrow> schedule_body option" where
  "exampleBody r = Some (exampleRequest r)"

definition exampleParse :: "string \<Rightarrow> msec option" where
  "exampleParse x = (if x = ''2030-01-01T00:00:00Z'' then Some 1893456000000 else None)"

definition exampleScheduled :: "bool \<Rightarrow> server" where
  "exampleScheduled r =
     snd (post_schedule exampleParse 1764300000000 ''job-1'' (Some 7) 1764300000000
            (exampleBody r) initServer)"


section \<open>Paths\<close>

text \<open>
  \<open>join\<close> of Node's \<open>path\<close> module on POSIX, which the service uses to build every
  file path: the non-empty arguments are joined with a slash and the result is
  normalised. Normalisation walks the segments between slashes: an empty segment and
  \<open>.\<close> are dropped, \<open>..\<close> removes the segment before it, and is kept only in a
  relative path that has nothing left to remove.
\<close>

fun splitSlash :: "string \<Rightarrow> string list" where
  "splitSlash [] = [[]]"
| "splitSlash (c # cs) =
     (if c = CHR ''/'' then [] # splitSlash cs
      else (case splitSlash cs of [] \<Rightarrow> [[c]] | seg # segs \<Rightarrow> (c # seg) # segs))"

fun joinSegs :: "string list \<Rightarrow> string" where
  "joinSegs [] = []"
| "joinSegs [seg] = seg"
| "joinSegs (seg # seg' # segs) = seg @ ''/'' @ joinSegs (seg' # segs)"

fun normalizeSegments :: "bool \<Rightarrow> string list \<Rightarrow> string list \<Rightarrow> string list" where
  "normalizeSegments allowAboveRoot res [] = res"
| "normalizeSegments allowAboveRoot res (seg # segs) =
     (if seg = [] \<or> seg = ''.'' then normalizeSegments allowAboveRoot res segs
      else if seg = ''..'' then
        (if res \<noteq> [] \<and> last res \<noteq> ''..''
         then normalizeSegments allowAboveRoot (butlast res) segs
         else if allowAboveRoot then normalizeSegments allowAboveRoot (res @ [''..'']) segs
         else normalizeSegments allowAboveRoot res segs)
      else normalizeSegments allowAboveRoot (res @ [seg]) segs)"

definition isAbsolute :: "string \<Rightarrow> bool" where
  "isAbsolute p = (p \<noteq> [] \<and> hd p = CHR ''/'')"

definition path_normalize :: "string \<Rightarrow> string" where
  "path_normalize p =
     (if p = [] then ''.''
      else
        (let trailingSeparator = (last p = CHR ''/'');
             q = joinSegs (normalizeSegments (\<not> isAbsolute p) [] (splitSlash p))
         in if q = [] then (if isAbsolute p then ''/'' else if trailingSeparator then ''./'' else ''.'')
            else (if isAbsolute p then ''/'' else []) @ q @
                 (if trailingSeparator then ''/'' else [])))"

definition path_join :: "string \<Rightarrow> string \<Rightarrow> string" where
  "path_join a b =
     (if a = [] \<and> b = [] then ''.''
      else path_normalize (if a = [] then b else if b = [] then a else a @ ''/'' @ b))"

text \<open>
  A path lies within a directory when its segments are those of the normalised
  directory followed by segments none of which is \<open>..\<close>, and both are absolute or
  both relative.
\<close>

definition pathSegments :: "string \<Rightarrow> string list" where
  "pathSegments p = filter (\<lambda>seg. seg \<noteq> [] \<and> seg \<noteq> ''.'') (splitSlash p)"

definition insideDir :: "string \<Rightarrow> string \<Rightarrow> bool" where
  "insideDir dir p =
     (let d = pathSegments (path_normalize dir); q = pathSegments p
      in isAbsolute p = isAbsolute dir \<and> take (length d) q = d \<and>
         ''..'' \<notin> set (drop (length d) q))"

text \<open>A segment as normalisation leaves it: not empty, not \<open>.\<close>, without a slash.\<close>

definition plainSegment :: "string \<Rightarrow> bool" where
  "plainSegment seg \<longleftrightarrow> seg \<noteq> [] \<and> seg \<noteq> ''.'' \<and> CHR ''/'' \<notin> set seg"

section \<open>Serving and listing the screenshots\<close>

text \<open>
  \<open>GET /api/screenshot/:filename\<close>. \<open>screenshotPath\<close> is
  \<open>config.screenshotPath\<close>, \<open>existsSync\<close> the file system's answer, \<open>file\<close> the
  route parameter after the framework has decoded it. \<open>res.sendFile\<close> is the
  framework's; the model stops at the path it is called with.
\<close>

definition get_screenshot :: "string \<Rightarrow> (string \<Rightarrow> bool) \<Rightarrow> string \<Rightarrow> http_response" where
  "get_screenshot screenshotPath existsSync file =
     (let filepath = path_join screenshotPath file
      in if \<not> existsSync filepath then ErrorResponse 404 ''Screenshot not found''
         else SendFile filepath)"

text \<open>
  \<open>GET /api/screenshots\<close>. The directory is missing, or \<open>readdirSync\<close> throws, or
  it lists the names of its entries, of whatever kind; \<open>statSync\<close> throws or gives
  the metadata, which say whether the entry is a regular file (the handler does not
  look). Any exception is answered with status 500 and its message. \<open>Array.prototype.sort\<close> with the comparator
  \<open>b.created - a.created\<close> is a stable sort by descending creation time.
\<close>

definition startsWith :: "string \<Rightarrow> string \<Rightarrow> bool" where
  "startsWith s p = (take (length p) s = p)"

definition endsWith :: "string \<Rightarrow> string \<Rightarrow> bool" where
  "endsWith s p = (length p \<le> length s \<and> drop (length s - length p) s = p)"

definition isScreenshotName :: "string \<Rightarrow> bool" where
  "isScreenshotName file = (startsWith file ''screenshot-'' \<and> endsWith file ''.png'')"

datatype dir_state = Missing | Unreadable string | Listing "string list"

fun statAll :: "(string \<Rightarrow> string + stats) \<Rightarrow> string \<Rightarrow> string list \<Rightarrow>
    string + screenshot_entry list" where
  "statAll statSync dir [] = Inr []"
| "statAll statSync dir (file # files) =
     (case statSync (path_join dir file) of
        Inl e \<Rightarrow> Inl e
      | Inr st \<Rightarrow>
          (case statAll statSync dir files of
             Inl e \<Rightarrow> Inl e
           | Inr entries \<Rightarrow>
               Inr (\<lparr> filename = file, path = path_join dir file,
                      created = birthtime st, size_of = size_bytes st \<rparr> # entries)))"

definition list_screenshots ::
  "string \<Rightarrow> dir_state \<Rightarrow> (string \<Rightarrow> string + stats) \<Rightarrow> http_response" where
  "list_screenshots screenshotPath d statSync =
     (case d of
        Missing \<Rightarrow> ScreenshotList []
      | Unreadable e \<Rightarrow> ErrorResponse 500 e
      | Listing names \<Rightarrow>
          (case statAll statSync screenshotPath (filter isScreenshotName names) of
             Inl e \<Rightarrow> ErrorResponse 500 e
           | Inr files \<Rightarrow> ScreenshotList (sort_key (\<lambda>f. - created f) files)))"

text \<open>
  A directory with three screenshots created at different times, and another file.
  In the file system of the example, \<open>screenshot-old.png\<close> is a directory, and any
  other name is a link whose target is gone.
\<close>

definition exampleDir :: "string list" where
  "exampleDir = [''screenshot-a.png'', ''notes.txt'', ''screenshot-b.png'', ''screenshot-c.png'']"

definition exampleStat :: "string \<Rightarrow> string + stats" where
  "exampleStat p =
     (if p = ''/shots/screenshot-a.png''
      then Inr \<lparr> birthtime = 10, size_bytes = 100, is_file = True \<rparr>
      else if p = ''/shots/screenshot-b.png''
      then Inr \<lparr> birthtime = 30, size_bytes = 300, is_file = True \<rparr>
      else if p = ''/shots/screenshot-c.png''
      then Inr \<lparr> birthtime = 20, size_bytes = 200, is_file = True \<rparr>
      else if p = ''/shots/screenshot-old.png''
      then Inr \<lparr> birthtime = 5, size_bytes = 4096, is_file = False \<rparr>
      else Inl ''ENOENT: no such file or directory'')"

section \<open>The capture routines\<close>

text \<open>
  A capture routine is a sequence of calls into the browser automation library and the
  file system, each of which may throw. The model records the calls in order and asks
  a \<open>world\<close> whether a call throws: the world sees the calls made so far and the
  call being made, and answers with the message of the exception, if any. The local
  variable \<open>browser\<close> is assigned when \<open>chromium.launch\<close> has returned. Log lines
  are left out. Each of the two blocks that adapt the page (language, exchange) is one
  call: the routine catches whatever happens inside it.
\<close>

datatype action =
    EnsureDir string
  | LaunchBrowser
  | NewContext
  | NewPage
  | Goto string string nat
  | WaitForTimeout nat
  | SwitchLanguage
  | SelectExchange
  | ScrollBy
  | SetTimeout msec
  | InjectOverlay msec
  | Screenshot string
  | CloseBrowser
  | OpenScreenshot string

record run_state =
  trace :: "action list"
  browser :: bool

definition idle :: run_state where
  "idle = \<lparr> trace = [], browser = False \<rparr>"

type_synonym world = "action list \<Rightarrow> action \<Rightarrow> string option"

type_synonym 'a io = "run_state \<Rightarrow> (string + 'a) \<times> run_state"

definition io_return :: "'a \<Rightarrow> 'a io" where
  "io_return x s = (Inr x, s)"

definition io_throw :: "string \<Rightarrow> 'a io" where
  "io_throw e s = (Inl e, s)"

definition io_bind :: "'a io \<Rightarrow> ('a \<Rightarrow> 'b io) \<Rightarrow> 'b io" where
  "io_bind m f s = (case m s of (Inl e, s') \<Rightarrow> (Inl e, s') | (Inr x, s') \<Rightarrow> f x s')"

definition tryCatch :: "'a io \<Rightarrow> (string \<Rightarrow> 'a io) \<Rightarrow> 'a io" where
  "tryCatch m h s = (case m s of (Inl e, s') \<Rightarrow> h e s' | (Inr x, s') \<Rightarrow> (Inr x, s'))"

fun seq :: "unit io list \<Rightarrow> unit io" where
  "seq [] = io_return ()"
| "seq (m # ms) = io_bind m (\<lambda>_. seq ms)"

definition perform :: "world \<Rightarrow> action \<Rightarrow> unit io" where
  "perform w a s =
     ((case w (trace s) a of None \<Rightarrow> Inr () | Some e \<Rightarrow> Inl e), s\<lparr> trace := trace s @ [a] \<rparr>)"

text \<open>A call that cannot throw: arming a timer and waiting for it.\<close>

definition emit :: "action \<Rightarrow> unit io" where
  "emit a s = (Inr (), s\<lparr> trace := trace s @ [a] \<rparr>)"

definition swallow :: "unit io \<Rightarrow> unit io" where
  "swallow m = tryCatch m (\<lambda>e. io_return ())"

record capture_config =
  url :: string
  screenshotPath :: string
  scrollCount :: nat
  scrollDelay :: nat
  waitForNetworkIdle :: bool

text \<open>
  The clocks a routine reads. \<open>readyAt\<close> is the clock read when the page is ready.
  The clock read for the overlay is the time at which the routine goes on: at once, or
  when the runtime ends the wait for the target, plus a \<open>lag\<close> that is not negative.
  \<open>isoStamp\<close> is the clock read for the file name, as an ISO string.
\<close>

record clocks =
  readyAt :: msec
  lag :: nat
  isoStamp :: string


definition captureTime :: "msec \<Rightarrow> clocks \<Rightarrow> msec" where
  "captureTime target c =
     (let msUntilTarget = target - readyAt c
      in if msUntilTarget > 0 then readyAt c + nodeTimeout msUntilTarget + int (lag c)
         else readyAt c + int (lag c))"

definition screenshotName :: "string \<Rightarrow> string" where
  "screenshotName stamp =
     ''screenshot-'' @ map (\<lambda>c. if c = CHR '':'' \<or> c = CHR ''.'' then CHR ''-'' else c) stamp @ ''.png''"

definition launch :: "world \<Rightarrow> unit io" where
  "launch w = io_bind (perform w LaunchBrowser) (\<lambda>_ s. (Inr (), s\<lparr> browser := True \<rparr>))"

definition navigate :: "world \<Rightarrow> string \<Rightarrow> string \<Rightarrow> unit io" where
  "navigate w u waitUntil =
     tryCatch (perform w (Goto u waitUntil 60000)) (\<lambda>e. perform w (Goto u ''load'' 30000))"

definition scroll :: "world \<Rightarrow> nat \<Rightarrow> nat \<Rightarrow> unit io" where
  "scroll w n delay =
     (if n > 0
      then seq (concat (replicate n [perform w ScrollBy, perform w (WaitForTimeout delay)]) @
                [perform w (WaitForTimeout 1000)])
      else io_return ())"

text \<open>Everything up to the comment \<open>NOW WAIT FOR EXACT TARGET TIME\<close>.\<close>

definition prewarm :: "world \<Rightarrow> capture_config \<Rightarrow> string \<Rightarrow> nat \<Rightarrow> unit io" where
  "prewarm w cfg waitUntil delay =
     seq [perform w (EnsureDir (screenshotPath cfg)),
          launch w,
          perform w NewContext,
          perform w NewPage,
          navigate w (url cfg) waitUntil,
          perform w (WaitForTimeout 2000),
          swallow (perform w SwitchLanguage),
          swallow (perform w SelectExchange),
          scroll w (scrollCount cfg) delay]"

definition waitForTarget :: "msec \<Rightarrow> clocks \<Rightarrow> unit io" where
  "waitForTarget target c =
     (let msUntilTarget = target - readyAt c
      in if msUntilTarget > 0 then emit (SetTimeout msUntilTarget) else io_return ())"

text \<open>Overlay (with the clock read for it), screenshot and closing the browser.\<close>

definition filepathOf :: "capture_config \<Rightarrow> clocks \<Rightarrow> string" where
  "filepathOf cfg c = path_join (screenshotPath cfg) (screenshotName (isoStamp c))"

definition shoot :: "world \<Rightarrow> capture_config \<Rightarrow> clocks \<Rightarrow> msec \<Rightarrow> nat \<Rightarrow> unit io" where
  "shoot w cfg c captureAt overlayDelay =
     seq [perform w (InjectOverlay captureAt),
          perform w (WaitForTimeout overlayDelay),
          perform w (Screenshot (filepathOf cfg c)),
          perform w CloseBrowser]"

definition closeIfLaunched :: "world \<Rightarrow> unit io" where
  "closeIfLaunched w s = (if browser s then perform w CloseBrowser s else (Inr (), s))"

datatype capture_result = Captured string string | Failed string


definition primaryWait :: "capture_config \<Rightarrow> string" where
  "primaryWait cfg = (if waitForNetworkIdle cfg then ''networkidle'' else ''domcontentloaded'')"



definition server_takeScreenshotAtExactTime_body ::
  "world \<Rightarrow> capture_config \<Rightarrow> clocks \<Rightarrow> msec \<Rightarrow> capture_result io" where
  "server_takeScreenshotAtExactTime_body w cfg c target =
     io_bind (seq [prewarm w cfg (primaryWait cfg) (scrollDelay cfg),
                   waitForTarget target c,
                   shoot w cfg c (captureTime target c) 300])
       (\<lambda>_. io_return (Captured (filepathOf cfg c) (screenshotName (isoStamp c))))"

definition server_takeScreenshotAtExactTime ::
  "world \<Rightarrow> capture_config \<Rightarrow> clocks \<Rightarrow> msec \<Rightarrow> capture_result io" where
  "server_takeScreenshotAtExactTime w cfg c target =
     tryCatch (server_takeScreenshotAtExactTime_body w cfg c target)
       (\<lambda>e. io_bind (closeIfLaunched w) (\<lambda>_. io_return (Failed e)))"

text \<open>
  \<open>takeScreenshotAtExactTime\<close> of \<open>schedule-screenshot.js\<close>: it returns the file
  path, opens the screenshot after closing the browser (in a block of its own that
  catches everything), and its \<open>catch\<close> ends with \<open>throw error\<close>.
\<close>

definition cli_takeScreenshotAtExactTime_body ::
  "world \<Rightarrow> capture_config \<Rightarrow> clocks \<Rightarrow> msec \<Rightarrow> string io" where
  "cli_takeScreenshotAtExactTime_body w cfg c target =
     io_bind (seq [prewarm w cfg ''domcontentloaded'' 500,
                   waitForTarget target c,
                   shoot w cfg c (captureTime target c) 100,
                   swallow (perform w (OpenScreenshot (filepathOf cfg c)))])
       (\<lambda>_. io_return (filepathOf cfg c))"

definition cli_takeScreenshotAtExactTime ::
  "world \<Rightarrow> capture_config \<Rightarrow> clocks \<Rightarrow> msec \<Rightarrow> string io" where
  "cli_takeScreenshotAtExactTime w cfg c target =
     tryCatch (cli_takeScreenshotAtExactTime_body w cfg c target)
       (\<lambda>e. io_bind (closeIfLaunched w) (\<lambda>_. io_throw e))"


fun isSetTimeout :: "action \<Rightarrow> bool" where
  "isSetTimeout (SetTimeout d) = True"
| "isSetTimeout a = False"

text \<open>A computation that only adds calls to the trace, none of them a timer wait.\<close>

definition quiet :: "'a io \<Rightarrow> bool" where
  "quiet m \<longleftrightarrow>
     (\<forall>s. \<exists>rest. trace (snd (m s)) = trace s @ rest \<and> filter isSetTimeout rest = [])"

text \<open>Example worlds: nothing throws; every navigation throws.\<close>

definition calm :: world where
  "calm h a = None"

definition offline :: world where
  "offline h a = (case a of Goto u wu t \<Rightarrow> Some ''net::ERR_NAME_NOT_RESOLVED'' | _ \<Rightarrow> None)"

definition exampleConfig :: capture_config where
  "exampleConfig = \<lparr> url = ''https://kimpga.com/'', screenshotPath = ''/shots'',
       scrollCount = 1, scrollDelay = 500, waitForNetworkIdle = False \<rparr>"

definition exampleClocks :: clocks where
  "exampleClocks = \<lparr> readyAt = 88000, lag = 0, isoStamp = ''2025-11-28T05:36:11.833Z'' \<rparr>"

text \<open>
  A run of the command-line scheduler started at clock 0 for a target 30 days ahead,
  with the page ready 12 seconds after the preparation began.
\<close>

definition farTarget :: msec where
  "farTarget = 2592000000"

definition farClocks :: clocks where
  "farClocks = \<lparr> readyAt = 12001, lag = 0, isoStamp = ''2025-11-28T05:36:11.833Z'' \<rparr>"

section \<open>Properties of the guard\<close>

lemma guardInv_init: "guardInv (scheduleWithPeriodicChecks T now) (scheduleWithPeriodicChecks T now)"
  by (simp add: guardInv_def scheduleWithPeriodicChecks_def Let_def)

lemma guardInv_deliver: "guardInv g0 g \<Longrightarrow> guardInv g0 (deliver e g)"
  by (cases e)
     (auto simp: guardInv_def intervalCallback_def backupCallback_def split: option.splits)

lemma guardInv_run: "guardInv g0 g \<Longrightarrow> guardInv g0 (runGuard g es)"
  by (induction es arbitrary: g) (simp_all add: guardInv_deliver)

lemma deliver_after_fire: "guardInv g0 g \<Longrightarrow> hasExecuted g \<Longrightarrow>
    hasExecuted (deliver e g) \<and> fired (deliver e g) = fired g"
  by (cases e)
     (auto simp: guardInv_def intervalCallback_def backupCallback_def split: option.splits)

lemma run_after_fire: "guardInv g0 g \<Longrightarrow> hasExecuted g \<Longrightarrow>
    hasExecuted (runGuard g es) \<and> fired (runGuard g es) = fired g"
proof (induction es arbitrary: g)
  case Nil
  then show ?case by simp
next
  case (Cons e es)
  from Cons.prems have a: "guardInv g0 (deliver e g)" by (simp add: guardInv_deliver)
  from Cons.prems have b: "hasExecuted (deliver e g) \<and> fired (deliver e g) = fired g"
    by (rule deliver_after_fire)
  from Cons.IH [OF a] b show ?case by simp
qed

lemma deliver_reaches: "guardInv g0 g \<Longrightarrow> reachesGuard g0 e \<Longrightarrow> hasExecuted (deliver e g)"
  by (cases e)
     (auto simp: guardInv_def intervalCallback_def backupCallback_def split: option.splits)

lemma run_reaches: "guardInv g0 g \<Longrightarrow> \<exists>e \<in> set es. reachesGuard g0 e \<Longrightarrow>
    hasExecuted (runGuard g es)"
proof (induction es arbitrary: g)
  case Nil
  then show ?case by simp
next
  case (Cons e es)
  have a: "guardInv g0 (deliver e g)" using Cons.prems(1) by (rule guardInv_deliver)
  show ?case
  proof (cases "reachesGuard g0 e")
    case True
    with Cons.prems(1) have "hasExecuted (deliver e g)" by (simp add: deliver_reaches)
    with a show ?thesis by (simp add: run_after_fire)
  next
    case False
    with Cons.prems(2) have "\<exists>e \<in> set es. reachesGuard g0 e" by simp
    with Cons.IH [OF a] show ?thesis by simp
  qed
qed

lemma fired_count: "guardInv g0 g \<Longrightarrow> length (fired g) = (if hasExecuted g then 1 else 0)"
  by (simp add: guardInv_def)

lemma pollTicks_reach:
  assumes "earlyStartTime g0 \<le> now + checkInterval * int n" and "0 < n"
  shows "\<exists>e \<in> set (pollTicks now n). reachesGuard g0 e"
proof -
  have "n \<in> set [1..<Suc n]" using assms(2) by simp
  then have "IntervalTick (now + checkInterval * int n) \<in> set (pollTicks now n)"
    unfolding pollTicks_def set_map by (rule image_eqI [rotated]) simp
  moreover have "reachesGuard g0 (IntervalTick (now + checkInterval * int n))"
    using assms(1) by simp
  ultimately show ?thesis by blast
qed

lemma enough_ticks: "\<exists>n>0. (e::int) \<le> now + checkInterval * int n"
proof -
  have "e \<le> now + checkInterval * int (Suc (nat (e - now)))"
    by (simp add: checkInterval_def)
  then show ?thesis by blast
qed

lemma runGuard_append: "runGuard g (es @ es') = runGuard (runGuard g es) es'"
  by (induction es arbitrary: g) simp_all

lemma poll_alone_fires:
  "\<exists>n. length (fired (runGuard (scheduleWithPeriodicChecks T now) (pollTicks now n))) = 1"
proof -
  let ?g0 = "scheduleWithPeriodicChecks T now"
  obtain n where n: "0 < n" "earlyStartTime ?g0 \<le> now + checkInterval * int n"
    using enough_ticks by blast
  have "\<exists>e \<in> set (pollTicks now n). reachesGuard ?g0 e"
    using n(2) n(1) by (rule pollTicks_reach)
  then have "hasExecuted (runGuard ?g0 (pollTicks now n))"
    by (rule run_reaches [OF guardInv_init])
  moreover have "guardInv ?g0 (runGuard ?g0 (pollTicks now n))"
    by (intro guardInv_run guardInv_init)
  ultimately have "length (fired (runGuard ?g0 (pollTicks now n))) = 1"
    by (simp add: fired_count)
  then show ?thesis ..
qed

subsection \<open>The callback runs once\<close>

text \<open>
  Claim C1. Armed for any target \<open>T\<close> at any clock \<open>now\<close> (so also for every future
  target), the guard calls \<open>takeScreenshotAtExactTime\<close> at most once, whatever the
  events the runtime delivers and in whatever order and at whatever clock readings.
  As soon as one event of the trace reaches the guard (a polling tick at or after the
  early start time, or the backup timeout of a guard that armed one) the callback has
  run exactly once; whatever is delivered after the first call changes nothing; and
  the polling ticks of a one-second interval alone, given enough of them, make the
  call.
\<close>

theorem guard_fires_exactly_once:
  "length (fired (runGuard (scheduleWithPeriodicChecks T now) es)) \<le> 1 \<and>
   ((\<exists>e \<in> set es. reachesGuard (scheduleWithPeriodicChecks T now) e) \<longrightarrow>
      length (fired (runGuard (scheduleWithPeriodicChecks T now) es)) = 1) \<and>
   (hasExecuted (runGuard (scheduleWithPeriodicChecks T now) es) \<longrightarrow>
      fired (runGuard (scheduleWithPeriodicChecks T now) (es @ es')) =
      fired (runGuard (scheduleWithPeriodicChecks T now) es) \<and>
      \<not> intervalActive (runGuard (scheduleWithPeriodicChecks T now) es)) \<and>
   (\<exists>n. length (fired (runGuard (scheduleWithPeriodicChecks T now) (pollTicks now n))) = 1)"
proof -
  let ?g0 = "scheduleWithPeriodicChecks T now"
  have inv: "guardInv ?g0 (runGuard ?g0 es)"
    by (intro guardInv_run guardInv_init)
  have one: "length (fired (runGuard ?g0 es)) \<le> 1"
    using inv by (simp add: fired_count)
  have two: "(\<exists>e \<in> set es. reachesGuard ?g0 e) \<longrightarrow> length (fired (runGuard ?g0 es)) = 1"
  proof
    assume "\<exists>e \<in> set es. reachesGuard ?g0 e"
    then have "hasExecuted (runGuard ?g0 es)"
      by (rule run_reaches [OF guardInv_init])
    with inv show "length (fired (runGuard ?g0 es)) = 1"
      by (simp add: fired_count)
  qed
  have three: "hasExecuted (runGuard ?g0 es) \<longrightarrow>
      fired (runGuard ?g0 (es @ es')) = fired (runGuard ?g0 es) \<and>
      \<not> intervalActive (runGuard ?g0 es)"
  proof
    assume h: "hasExecuted (runGuard ?g0 es)"
    from run_after_fire [OF inv h, of es']
    have "fired (runGuard ?g0 (es @ es')) = fired (runGuard ?g0 es)"
      by (simp add: runGuard_append)
    moreover from inv h have "\<not> intervalActive (runGuard ?g0 es)"
      by (simp add: guardInv_def)
    ultimately show "fired (runGuard ?g0 (es @ es')) = fired (runGuard ?g0 es) \<and>
      \<not> intervalActive (runGuard ?g0 es)" by simp
  qed
  from one two three poll_alone_fires [of T now] show ?thesis by blast
qed

theorem guard_fires_exactly_once_witness:
  "(\<exists>e \<in> set [IntervalTick 1000, BackupTimeout 85000, IntervalTick 86000].
      reachesGuard (scheduleWithPeriodicChecks 100000 0) e) \<and>
   hasExecuted (runGuard (scheduleWithPeriodicChecks 100000 0)
      [IntervalTick 1000, BackupTimeout 85000, IntervalTick 86000]) \<and>
   length (fired (runGuard (scheduleWithPeriodicChecks 100000 0)
      [IntervalTick 1000, BackupTimeout 85000, IntervalTick 86000])) = 1 \<and>
   fired (runGuard (scheduleWithPeriodicChecks 100000 0)
      ([IntervalTick 1000, BackupTimeout 85000, IntervalTick 86000] @ [IntervalTick 87000])) =
   fired (runGuard (scheduleWithPeriodicChecks 100000 0)
      [IntervalTick 1000, BackupTimeout 85000, IntervalTick 86000])"
  using guard_fires_exactly_once [of 100000 0
      "[IntervalTick 1000, BackupTimeout 85000, IntervalTick 86000]" "[IntervalTick 87000]"]
  by (simp add: scheduleWithPeriodicChecks_def PROCESS_DURATION_MS_def
      intervalCallback_def backupCallback_def)

subsection \<open>The command line\<close>

text \<open>
  Claim C9. Started with no argument, the scheduler prints the usage message on
  standard output and exits with status 0, which is what it does when its first
  argument is \<open>--help\<close>; nothing goes to standard error.
\<close>

theorem main_no_args_is_help:
  "main dateParse now now' [] = Exit 0 usage [] \<and>
   main dateParse now now' [] = main dateParse now now' (''--help'' # rest)"
  by (simp add: main_def)

subsection \<open>When the callback runs\<close>

lemma deliver_early: "earlyStartTime (deliver e g) = earlyStartTime g"
  by (cases e) (auto simp: intervalCallback_def backupCallback_def split: option.splits)

lemma deliver_not_early:
  assumes "\<forall>t \<in> set (fired g). earlyStartTime g \<le> t"
    and "\<And>t. e = BackupTimeout t \<Longrightarrow> earlyStartTime g \<le> t"
  shows "\<forall>t \<in> set (fired (deliver e g)). earlyStartTime g \<le> t"
  using assms
  by (cases e) (auto simp: intervalCallback_def backupCallback_def split: option.splits)

lemma run_not_early:
  "\<forall>t \<in> set (fired g). earlyStartTime g \<le> t \<Longrightarrow>
   \<forall>t. BackupTimeout t \<in> set es \<longrightarrow> earlyStartTime g \<le> t \<Longrightarrow>
   \<forall>t \<in> set (fired (runGuard g es)). earlyStartTime g \<le> t"
proof (induction es arbitrary: g)
  case Nil
  then show ?case by simp
next
  case (Cons e es)
  have a: "\<forall>t \<in> set (fired (deliver e g)). earlyStartTime (deliver e g) \<le> t"
    unfolding deliver_early using Cons.prems by (intro deliver_not_early) auto
  have b: "\<forall>t. BackupTimeout t \<in> set es \<longrightarrow> earlyStartTime (deliver e g) \<le> t"
    unfolding deliver_early using Cons.prems(2) by simp
  from Cons.IH [OF a b] show ?case by (simp add: deliver_early)
qed

lemma ticks_before_early:
  "\<forall>e \<in> set es. \<exists>t. e = IntervalTick t \<and> t < earlyStartTime g \<Longrightarrow> runGuard g es = g"
proof (induction es)
  case Nil
  then show ?case by simp
next
  case (Cons e es)
  then obtain t where t: "e = IntervalTick t" "t < earlyStartTime g" by auto
  then have "deliver e g = g" by (simp add: intervalCallback_def)
  with Cons show ?case by simp
qed

lemma pollTicks_ticks: "e \<in> set (pollTicks now n) \<Longrightarrow> \<exists>t. e = IntervalTick t \<and> eventTime e = t"
  by (auto simp: pollTicks_def)

lemma pollTicks_first:
  "0 < n \<Longrightarrow> \<exists>rest. pollTicks now n = IntervalTick (now + checkInterval) # rest"
  by (simp add: pollTicks_def upt_conv_Cons del: upt_Suc)

lemma backupDue_init:
  "backupDue now (scheduleWithPeriodicChecks T now) =
     (if T - 15000 - now > 0 then Some (now + nodeTimeout (T - 15000 - now)) else None)"
  by (simp add: backupDue_def scheduleWithPeriodicChecks_def Let_def PROCESS_DURATION_MS_def)

lemma first_trigger:
  assumes "hasExecuted (deliver e (scheduleWithPeriodicChecks T now))"
  shows "fired (runGuard (scheduleWithPeriodicChecks T now) (e # es)) =
         fired (deliver e (scheduleWithPeriodicChecks T now))"
proof -
  let ?g0 = "scheduleWithPeriodicChecks T now"
  have "guardInv ?g0 (deliver e ?g0)" by (intro guardInv_deliver guardInv_init)
  from run_after_fire [OF this assms, of es] show ?thesis by simp
qed

lemma early_init: "earlyStartTime (scheduleWithPeriodicChecks T now) = T - 15000"
  by (simp add: scheduleWithPeriodicChecks_def Let_def PROCESS_DURATION_MS_def)

text \<open>
  Claim C5, as stated, fails: a target less than 15 seconds ahead is accepted by
  \<open>main\<close>, no backup timeout is armed, and the first polling tick, one second after
  arming, starts the preparation later than \<open>T - 15000\<close>.
\<close>

theorem prewarm_never_later_counterexample:
  "(0::int) < 5000 \<and>
   main (\<lambda>x. Some 5000) 0 0 [''1970-01-01T00:00:05Z''] = Running (scheduleWithPeriodicChecks 5000 0) \<and>
   backupTimer (scheduleWithPeriodicChecks 5000 0) = None \<and>
   fired (runGuard (scheduleWithPeriodicChecks 5000 0) (pollTicks 0 1)) = [1000] \<and>
   \<not> (1000 \<le> earlyStartTime (scheduleWithPeriodicChecks 5000 0))"
  by (simp add: main_def scheduleWithPeriodicChecks_def PROCESS_DURATION_MS_def pollTicks_def
      checkInterval_def intervalCallback_def)

text \<open>
  Claim C5, amended. The early start time is \<open>T - 15000\<close>: a polling tick one
  millisecond before it does not start the preparation, one at that instant does. When
  the delay of the
  backup timeout is within the limit of the runtime and the runtime runs no callback
  before it is due, the preparation never starts before that instant. In a punctual
  runtime it starts at \<open>T - 15000\<close> exactly when that instant is still ahead at
  arming time and not further ahead than the limit; when that instant has passed at
  arming time (a target less than 15 seconds away) no backup timeout is armed and the
  preparation starts at the first polling tick, one second after arming and later
  than \<open>T - 15000\<close>. In the HTTP service, the job of an accepted request is
  scheduled for its target minus 15000 ms.
\<close>

theorem prewarm_start_time:
  "earlyStartTime (scheduleWithPeriodicChecks T now) = T - 15000 \<and>
   fired (runGuard (scheduleWithPeriodicChecks T now) [IntervalTick (T - 15001)]) = [] \<and>
   fired (runGuard (scheduleWithPeriodicChecks T now) [IntervalTick (T - 15000)]) = [T - 15000] \<and>
   (T - 15000 - now \<le> TIMEOUT_MAX \<and> notEarly now (scheduleWithPeriodicChecks T now) es \<longrightarrow>
      (\<forall>t \<in> set (fired (runGuard (scheduleWithPeriodicChecks T now) es)). T - 15000 \<le> t)) \<and>
   (0 < T - 15000 - now \<and> T - 15000 - now \<le> TIMEOUT_MAX \<longrightarrow>
      fired (runGuard (scheduleWithPeriodicChecks T now)
               (punctualTrace now (scheduleWithPeriodicChecks T now) n)) = [T - 15000]) \<and>
   (T - 15000 \<le> now \<and> 0 < n \<longrightarrow>
      backupTimer (scheduleWithPeriodicChecks T now) = None \<and>
      fired (runGuard (scheduleWithPeriodicChecks T now)
               (punctualTrace now (scheduleWithPeriodicChecks T now) n)) = [now + 1000] \<and>
      T - 15000 < now + 1000) \<and>
   (fst (post_schedule dateParse clock jobId job clock' body s) = ScheduleOk jobId' target \<longrightarrow>
      (\<exists>h. job = Some h \<and>
         map_option fireAt (timers (snd (post_schedule dateParse clock jobId job clock' body s)) h)
           = Some (target - 15000)))"
proof -
  let ?g0 = "scheduleWithPeriodicChecks T now"
  have e: "earlyStartTime ?g0 = T - 15000" by (rule early_init)
  have p1: "fired (runGuard ?g0 [IntervalTick (T - 15001)]) = []"
    by (simp add: scheduleWithPeriodicChecks_def Let_def PROCESS_DURATION_MS_def
        intervalCallback_def)
  have p2: "fired (runGuard ?g0 [IntervalTick (T - 15000)]) = [T - 15000]"
    by (simp add: scheduleWithPeriodicChecks_def Let_def PROCESS_DURATION_MS_def
        intervalCallback_def)
  have f0: "\<forall>t \<in> set (fired ?g0). earlyStartTime ?g0 \<le> t"
    by (simp add: scheduleWithPeriodicChecks_def Let_def)
  have a: "T - 15000 - now \<le> TIMEOUT_MAX \<and> notEarly now ?g0 es \<longrightarrow>
      (\<forall>t \<in> set (fired (runGuard ?g0 es)). T - 15000 \<le> t)"
  proof
    assume h: "T - 15000 - now \<le> TIMEOUT_MAX \<and> notEarly now ?g0 es"
    have "\<forall>t. BackupTimeout t \<in> set es \<longrightarrow> earlyStartTime ?g0 \<le> t"
    proof (intro allI impI)
      fix t
      assume "BackupTimeout t \<in> set es"
      moreover from h have "\<forall>x \<in> set es. notBeforeDue now ?g0 x"
        by (simp add: notEarly_def list_all_iff)
      ultimately have "notBeforeDue now ?g0 (BackupTimeout t)" by blast
      then have "0 < T - 15000 - now \<and> now + nodeTimeout (T - 15000 - now) \<le> t"
        by (simp add: backupDue_init split: if_splits)
      with h show "earlyStartTime ?g0 \<le> t"
        unfolding e by (simp add: nodeTimeout_def split: if_splits)
    qed
    from run_not_early [OF f0 this] show "\<forall>t \<in> set (fired (runGuard ?g0 es)). T - 15000 \<le> t"
      unfolding e .
  qed
  have b: "0 < T - 15000 - now \<and> T - 15000 - now \<le> TIMEOUT_MAX \<longrightarrow>
      fired (runGuard ?g0 (punctualTrace now ?g0 n)) = [T - 15000]"
  proof
    assume h: "0 < T - 15000 - now \<and> T - 15000 - now \<le> TIMEOUT_MAX"
    then have due: "backupDue now ?g0 = Some (T - 15000)"
      by (simp add: backupDue_init nodeTimeout_def)
    let ?pre = "filter (\<lambda>e. eventTime e < T - 15000) (pollTicks now n)"
    let ?post = "filter (\<lambda>e. T - 15000 \<le> eventTime e) (pollTicks now n)"
    have tr: "punctualTrace now ?g0 n = ?pre @ BackupTimeout (T - 15000) # ?post"
      by (simp add: punctualTrace_def due)
    have "\<forall>x \<in> set ?pre. \<exists>t. x = IntervalTick t \<and> t < earlyStartTime ?g0"
      unfolding e using pollTicks_ticks by fastforce
    then have pre: "runGuard ?g0 ?pre = ?g0" by (rule ticks_before_early)
    have armed: "backupTimer ?g0 = Some (T - 15000 - now)"
      using h by (simp add: scheduleWithPeriodicChecks_def Let_def PROCESS_DURATION_MS_def)
    have ex: "hasExecuted (deliver (BackupTimeout (T - 15000)) ?g0)"
      using armed by (simp add: backupCallback_def scheduleWithPeriodicChecks_def Let_def)
    have fi: "fired (deliver (BackupTimeout (T - 15000)) ?g0) = [T - 15000]"
      using armed by (simp add: backupCallback_def scheduleWithPeriodicChecks_def Let_def)
    show "fired (runGuard ?g0 (punctualTrace now ?g0 n)) = [T - 15000]"
      unfolding tr runGuard_append pre using first_trigger [OF ex] fi by simp
  qed
  have c: "T - 15000 \<le> now \<and> 0 < n \<longrightarrow>
      backupTimer ?g0 = None \<and>
      fired (runGuard ?g0 (punctualTrace now ?g0 n)) = [now + 1000] \<and> T - 15000 < now + 1000"
  proof
    assume h: "T - 15000 \<le> now \<and> 0 < n"
    then have none: "backupTimer ?g0 = None"
      by (simp add: scheduleWithPeriodicChecks_def Let_def PROCESS_DURATION_MS_def)
    from h have due: "backupDue now ?g0 = None" by (simp add: backupDue_init)
    from h obtain rest where r: "pollTicks now n = IntervalTick (now + checkInterval) # rest"
      using pollTicks_first by blast
    have tr: "punctualTrace now ?g0 n = IntervalTick (now + 1000) # rest"
      by (simp add: punctualTrace_def due r checkInterval_def)
    have ex: "hasExecuted (deliver (IntervalTick (now + 1000)) ?g0)"
      using h by (simp add: intervalCallback_def scheduleWithPeriodicChecks_def Let_def
          PROCESS_DURATION_MS_def)
    have fi: "fired (deliver (IntervalTick (now + 1000)) ?g0) = [now + 1000]"
      using h by (simp add: intervalCallback_def scheduleWithPeriodicChecks_def Let_def
          PROCESS_DURATION_MS_def)
    have "fired (runGuard ?g0 (punctualTrace now ?g0 n)) = [now + 1000]"
      unfolding tr using first_trigger [OF ex] fi by simp
    with none h show "backupTimer ?g0 = None \<and>
      fired (runGuard ?g0 (punctualTrace now ?g0 n)) = [now + 1000] \<and> T - 15000 < now + 1000"
      by simp
  qed
  have d: "fst (post_schedule dateParse clock jobId job clock' body s) = ScheduleOk jobId' target \<longrightarrow>
      (\<exists>h. job = Some h \<and>
         map_option fireAt (timers (snd (post_schedule dateParse clock jobId job clock' body s)) h)
           = Some (target - 15000))"
    by (auto simp: post_schedule_def Let_def PROCESS_DURATION_MS_def
        split: option.splits sum.splits if_splits)
  from e p1 p2 a b c d show ?thesis by blast
qed

theorem prewarm_start_time_witness:
  "(0::int) < 100000 - 15000 - 0 \<and> (100000::int) - 15000 - 0 \<le> TIMEOUT_MAX \<and>
   notEarly 0 (scheduleWithPeriodicChecks 100000 0)
      [IntervalTick 84000, BackupTimeout 85002, IntervalTick 86007] \<and>
   fired (runGuard (scheduleWithPeriodicChecks 100000 0)
      [IntervalTick 84000, BackupTimeout 85002, IntervalTick 86007]) = [85002] \<and>
   fired (runGuard (scheduleWithPeriodicChecks 100000 0)
      (punctualTrace 0 (scheduleWithPeriodicChecks 100000 0) 90)) = [85000] \<and>
   fired (runGuard (scheduleWithPeriodicChecks 5000 0)
      (punctualTrace 0 (scheduleWithPeriodicChecks 5000 0) 3)) = [1000] \<and>
   fst (post_schedule exampleParse 1764300000000 ''job-1'' (Some 7) 1764300000000
          (exampleBody False) initServer) = ScheduleOk ''job-1'' 1893456000000 \<and>
   map_option fireAt (timers (exampleScheduled False) 7) = Some 1893455985000"
proof -
  have n: "notEarly 0 (scheduleWithPeriodicChecks 100000 0)
      [IntervalTick 84000, BackupTimeout 85002, IntervalTick 86007]"
    by (simp add: notEarly_def backupDue_init nodeTimeout_def TIMEOUT_MAX_def checkInterval_def)
  have f: "fired (runGuard (scheduleWithPeriodicChecks 100000 0)
      [IntervalTick 84000, BackupTimeout 85002, IntervalTick 86007]) = [85002]"
    by (simp add: scheduleWithPeriodicChecks_def PROCESS_DURATION_MS_def intervalCallback_def
        backupCallback_def)
  have m: "(100000::int) - 15000 - 0 \<le> TIMEOUT_MAX" by (simp add: TIMEOUT_MAX_def)
  from prewarm_start_time [where T = 100000 and now = 0 and n = 90
      and es = "[IntervalTick 84000, BackupTimeout 85002, IntervalTick 86007]"
      and dateParse = exampleParse and clock = 1764300000000 and jobId = "''job-1''"
      and job = "Some 7" and clock' = 1764300000000 and body = "exampleBody False"
      and s = initServer and jobId' = "''job-1''" and target = 1893456000000]
    prewarm_start_time [where T = 5000 and now = 0 and n = 3 and es = "[]"
      and dateParse = exampleParse and clock = 1764300000000 and jobId = "''job-1''"
      and job = "Some 7" and clock' = 1764300000000 and body = "exampleBody False"
      and s = initServer and jobId' = "''job-1''" and target = 1893456000000]
    n f m
  show ?thesis
    by (simp add: exampleScheduled_def post_schedule_def exampleParse_def exampleBody_def
        exampleRequest_def)
qed

section \<open>Properties of the job registry\<close>

lemma handlesPresent_init: "handlesPresent initServer"
  by (simp add: handlesPresent_def initServer_def)

lemma handlesPresent_post:
  "handlesPresent s \<Longrightarrow> handlesPresent (snd (post_schedule dateParse now jobId job now' body s))"
  by (auto simp: handlesPresent_def post_schedule_def Let_def split: option.splits sum.splits)

lemma handlesPresent_delete: "handlesPresent s \<Longrightarrow> handlesPresent (snd (delete_job jobId s))"
  by (auto simp: handlesPresent_def delete_job_def split: option.splits)

lemma handlesPresent_fire: "handlesPresent s \<Longrightarrow> handlesPresent (timerFires h s)"
  by (simp add: handlesPresent_def timerFires_def)

lemma handlesPresent_finish: "handlesPresent s \<Longrightarrow> handlesPresent (jobCallbackEnd c r s)"
  by (cases r) (auto simp: handlesPresent_def)

lemma reachable_handlesPresent: "reachable s \<Longrightarrow> handlesPresent s"
  by (induction rule: reachable.induct)
     (simp_all add: handlesPresent_init handlesPresent_post handlesPresent_delete
        handlesPresent_fire handlesPresent_finish)

text \<open>
  Claim C2, as stated, fails: a \<open>datetime\<close> that cannot be converted to a primitive
  is not parseable, yet \<open>new Date(datetime)\<close> throws on it inside the \<open>try\<close> block
  and the request is answered with status 500, not 400. The registry is unchanged.
\<close>

theorem invalid_schedule_counterexample:
  "post_schedule exampleParse 1764300000000 ''job-1'' (Some 7) 1764300000000
      (Some \<lparr> datetime = JUnconvertible ''Cannot convert object to primitive value'',
               recurring = JBool False \<rparr>) initServer
     = (ErrorResponse 500 ''Cannot convert object to primitive value'', initServer) \<and>
   statusCode (fst (post_schedule exampleParse 1764300000000 ''job-1'' (Some 7) 1764300000000
      (Some \<lparr> datetime = JUnconvertible ''Cannot convert object to primitive value'',
               recurring = JBool False \<rparr>) initServer)) \<noteq> 400"
  by (simp add: post_schedule_def)

text \<open>
  Claim C2, amended. A schedule request whose \<open>datetime\<close> is missing (falsy),
  converts to an invalid date, or is a date not strictly after the current clock is
  answered with status 400. A request without a parsed body, or whose \<open>datetime\<close>
  makes the conversion throw, is answered with status 500 by the handler's \<open>catch\<close>.
  In all these cases the registry and the pending timers stay as they were; the state
  changes only for a request with a body whose \<open>datetime\<close> is a date strictly in the
  future and whose timer was created.
\<close>

theorem invalid_schedule_rejected:
  "(body = Some b \<and>
      (\<not> truthy (datetime b) \<or> newDate dateParse (datetime b) = Inr None \<or>
       (\<exists>t. newDate dateParse (datetime b) = Inr (Some t) \<and> t \<le> now)) \<longrightarrow>
      statusCode (fst (post_schedule dateParse now jobId job now' body s)) = 400 \<and>
      snd (post_schedule dateParse now jobId job now' body s) = s) \<and>
   (body = None \<or> (body = Some b \<and> truthy (datetime b) \<and>
                     newDate dateParse (datetime b) = Inl e) \<longrightarrow>
      statusCode (fst (post_schedule dateParse now jobId job now' body s)) = 500 \<and>
      snd (post_schedule dateParse now jobId job now' body s) = s) \<and>
   (snd (post_schedule dateParse now jobId job now' body s) \<noteq> s \<longrightarrow>
      (\<exists>b' t h. body = Some b' \<and> truthy (datetime b') \<and>
         newDate dateParse (datetime b') = Inr (Some t) \<and> now < t \<and> job = Some h \<and>
         fst (post_schedule dateParse now jobId job now' body s) = ScheduleOk jobId t))"
proof -
  let ?R = "post_schedule dateParse now jobId job now' body s"
  have a: "body = Some b \<and>
      (\<not> truthy (datetime b) \<or> newDate dateParse (datetime b) = Inr None \<or>
       (\<exists>t. newDate dateParse (datetime b) = Inr (Some t) \<and> t \<le> now)) \<longrightarrow>
      statusCode (fst ?R) = 400 \<and> snd ?R = s"
    by (auto simp: post_schedule_def split: option.splits sum.splits)
  have b: "body = None \<or> (body = Some b \<and> truthy (datetime b) \<and>
                     newDate dateParse (datetime b) = Inl e) \<longrightarrow>
      statusCode (fst ?R) = 500 \<and> snd ?R = s"
    by (auto simp: post_schedule_def)
  have c: "snd ?R \<noteq> s \<longrightarrow>
      (\<exists>b' t h. body = Some b' \<and> truthy (datetime b') \<and>
         newDate dateParse (datetime b') = Inr (Some t) \<and> now < t \<and> job = Some h \<and>
         fst ?R = ScheduleOk jobId t)"
    by (auto simp: post_schedule_def Let_def split: option.splits sum.splits if_splits)
  from a b c show ?thesis by blast
qed

theorem invalid_schedule_rejected_witness:
  "post_schedule exampleParse 1764300000000 ''job-1'' (Some 7) 1764300000000
      (Some \<lparr> datetime = JUndefined, recurring = JBool False \<rparr>) initServer
     = (ErrorResponse 400 ''datetime is required'', initServer) \<and>
   post_schedule exampleParse 1764300000000 ''job-1'' (Some 7) 1764300000000
      (Some \<lparr> datetime = JStr ''tomorrow'', recurring = JBool False \<rparr>) initServer
     = (ErrorResponse 400 ''Invalid datetime format'', initServer) \<and>
   post_schedule exampleParse 1900000000000 ''job-1'' (Some 7) 1900000000000
      (exampleBody False) initServer
     = (ErrorResponse 400 ''datetime must be in the future'', initServer) \<and>
   statusCode (fst (post_schedule exampleParse 1764300000000 ''job-1'' (Some 7) 1764300000000
      None initServer)) = 500 \<and>
   snd (post_schedule exampleParse 1764300000000 ''job-1'' (Some 7) 1764300000000
      (exampleBody False) initServer) \<noteq> initServer \<and>
   fst (post_schedule exampleParse 1764300000000 ''job-1'' (Some 7) 1764300000000
      (exampleBody False) initServer) = ScheduleOk ''job-1'' 1893456000000"
proof -
  let ?b1 = "\<lparr> datetime = JUndefined, recurring = JBool False \<rparr>"
  let ?b2 = "\<lparr> datetime = JStr ''tomorrow'', recurring = JBool False \<rparr>"
  let ?b3 = "\<lparr> datetime = JStr ''2030-01-01T00:00:00Z'', recurring = JBool False \<rparr>"
  have 1: "\<not> truthy (datetime ?b1)" by simp
  have 2: "newDate exampleParse (datetime ?b2) = Inr None" by (simp add: exampleParse_def)
  have 3: "\<exists>t. newDate exampleParse (datetime ?b3) = Inr (Some t) \<and> t \<le> 1900000000000"
    by (simp add: exampleParse_def)
  have 4: "exampleBody False = Some ?b3" by (simp add: exampleBody_def exampleRequest_def)
  have 5: "snd (post_schedule exampleParse 1764300000000 ''job-1'' (Some 7) 1764300000000
      (exampleBody False) initServer) \<noteq> initServer"
    by (simp add: post_schedule_def exampleParse_def exampleBody_def exampleRequest_def
        initServer_def Let_def)
  from invalid_schedule_rejected [where body = "Some ?b1" and b = ?b1
      and dateParse = exampleParse and now = 1764300000000 and jobId = "''job-1''"
      and job = "Some 7" and now' = 1764300000000 and s = initServer] 1
    invalid_schedule_rejected [where body = "Some ?b2" and b = ?b2
      and dateParse = exampleParse and now = 1764300000000 and jobId = "''job-1''"
      and job = "Some 7" and now' = 1764300000000 and s = initServer] 2
    invalid_schedule_rejected [where body = "Some ?b3" and b = ?b3
      and dateParse = exampleParse and now = 1900000000000 and jobId = "''job-1''"
      and job = "Some 7" and now' = 1900000000000 and s = initServer] 3
    invalid_schedule_rejected [where body = None
      and dateParse = exampleParse and now = 1764300000000 and jobId = "''job-1''"
      and job = "Some 7" and now' = 1764300000000 and s = initServer]
    invalid_schedule_rejected [where body = "exampleBody False"
      and dateParse = exampleParse and now = 1764300000000 and jobId = "''job-1''"
      and job = "Some 7" and now' = 1764300000000 and s = initServer] 5
  show ?thesis
    by (simp add: post_schedule_def exampleParse_def exampleBody_def exampleRequest_def)
qed

text \<open>
  Claim C3. In every state the service can reach, cancelling a job id that is in the
  registry cancels its timer and removes the entry; cancelling an id that is not there
  answers 404 and changes nothing; so a second cancellation of the same id answers 404.
\<close>

theorem cancel_job:
  assumes "reachable s"
  shows "(case scheduledJobs s jobId of
            None \<Rightarrow> delete_job jobId s = (ErrorResponse 404 ''Job not found'', s)
          | Some jobInfo \<Rightarrow>
              (\<exists>h. job_handle jobInfo = Some h \<and>
                 delete_job jobId s =
                   (CancelOk, s\<lparr> timers := (timers s)(h := None),
                                 scheduledJobs := (scheduledJobs s)(jobId := None) \<rparr>))) \<and>
         delete_job jobId (snd (delete_job jobId s)) =
           (ErrorResponse 404 ''Job not found'', snd (delete_job jobId s))"
proof -
  from assms have hp: "handlesPresent s" by (rule reachable_handlesPresent)
  show ?thesis
  proof (cases "scheduledJobs s jobId")
    case None
    then show ?thesis by (simp add: delete_job_def)
  next
    case (Some jobInfo)
    with hp obtain h where h: "job_handle jobInfo = Some h"
      by (auto simp: handlesPresent_def)
    with Some show ?thesis by (simp add: delete_job_def)
  qed
qed

theorem cancel_job_witness:
  "reachable (exampleScheduled False) \<and>
   fst (delete_job ''job-1'' (exampleScheduled False)) = CancelOk \<and>
   snd (delete_job ''job-1'' (exampleScheduled False)) = initServer \<and>
   delete_job ''job-1'' (snd (delete_job ''job-1'' (exampleScheduled False))) =
     (ErrorResponse 404 ''Job not found'', initServer) \<and>
   delete_job ''job-2'' (exampleScheduled False) =
     (ErrorResponse 404 ''Job not found'', exampleScheduled False)"
proof -
  have r: "reachable (exampleScheduled False)"
    unfolding exampleScheduled_def by (rule reachable.schedule [OF reachable.start])
  have e: "exampleScheduled False =
     \<lparr> scheduledJobs = [''job-1'' \<mapsto> \<lparr> job_id = ''job-1'', job_datetime = 1893456000000,
          job_recurring = JBool False, job_scheduled = 1764300000000, job_handle = Some 7 \<rparr>],
       timers = [7 \<mapsto> \<lparr> fireAt = 1893455985000, forJob = ''job-1'',
          forTarget = 1893456000000, isRecurring = JBool False \<rparr>] \<rparr>"
    by (simp add: exampleScheduled_def post_schedule_def exampleParse_def exampleBody_def exampleRequest_def
        initServer_def PROCESS_DURATION_MS_def)
  from cancel_job [OF r, of "''job-1''"] r
  show ?thesis unfolding e by (simp add: delete_job_def initServer_def)
qed




section \<open>Properties of paths and of the file endpoints\<close>

lemma splitSlash_not_Nil: "splitSlash s \<noteq> []"
  by (induction s) (auto split: list.splits)

lemma splitSlash_append: "splitSlash (a @ CHR ''/'' # b) = splitSlash a @ splitSlash b"
proof (induction a)
  case Nil
  then show ?case by simp
next
  case (Cons c a)
  obtain seg segs where s: "splitSlash a = seg # segs"
    using splitSlash_not_Nil [of a] by (cases "splitSlash a") auto
  with Cons show ?case by simp
qed

lemma splitSlash_no_slash: "seg \<in> set (splitSlash s) \<Longrightarrow> CHR ''/'' \<notin> set seg"
proof (induction s arbitrary: seg)
  case Nil
  then show ?case by simp
next
  case (Cons c s)
  obtain x xs where s: "splitSlash s = x # xs"
    using splitSlash_not_Nil [of s] by (cases "splitSlash s") auto
  show ?case
  proof (cases "c = CHR ''/''")
    case True
    with Cons show ?thesis by auto
  next
    case False
    with Cons.prems s have "seg = c # x \<or> seg \<in> set xs" by simp
    then show ?thesis
    proof
      assume "seg = c # x"
      moreover have "CHR ''/'' \<notin> set x" using Cons.IH [of x] s by simp
      ultimately show ?thesis using False by simp
    next
      assume "seg \<in> set xs"
      then show ?thesis using Cons.IH [of seg] s by simp
    qed
  qed
qed

lemma splitSlash_single: "CHR ''/'' \<notin> set s \<Longrightarrow> splitSlash s = [s]"
  by (induction s) auto

lemma splitSlash_joinSegs:
  "segs \<noteq> [] \<Longrightarrow> \<forall>seg \<in> set segs. CHR ''/'' \<notin> set seg \<Longrightarrow> splitSlash (joinSegs segs) = segs"
proof (induction segs rule: joinSegs.induct)
  case 1
  then show ?case by simp
next
  case (2 seg)
  then show ?case by (simp add: splitSlash_single)
next
  case (3 seg seg' segs)
  then have "splitSlash (joinSegs (seg' # segs)) = seg' # segs" by simp
  moreover have "splitSlash seg = [seg]" using 3(3) by (simp add: splitSlash_single)
  ultimately show ?case using splitSlash_append [of seg "joinSegs (seg' # segs)"] by simp
qed

lemma joinSegs_hd:
  "segs \<noteq> [] \<Longrightarrow> \<forall>seg \<in> set segs. plainSegment seg \<Longrightarrow>
   joinSegs segs \<noteq> [] \<and> hd (joinSegs segs) \<noteq> CHR ''/''"
proof (induction segs rule: joinSegs.induct)
  case 1
  then show ?case by simp
next
  case (2 seg)
  then show ?case by (cases seg) (auto simp: plainSegment_def)
next
  case (3 seg seg' segs)
  then show ?case by (cases seg) (auto simp: plainSegment_def)
qed

lemma normalizeSegments_plain:
  "\<forall>seg \<in> set res. plainSegment seg \<Longrightarrow> \<forall>seg \<in> set segs. CHR ''/'' \<notin> set seg \<Longrightarrow>
   \<forall>seg \<in> set (normalizeSegments a res segs). plainSegment seg"
proof (induction segs arbitrary: res)
  case Nil
  then show ?case by simp
next
  case (Cons seg segs)
  have t: "\<forall>x \<in> set segs. CHR ''/'' \<notin> set x" using Cons.prems(2) by simp
  have step: "\<exists>res'. (\<forall>x \<in> set res'. plainSegment x) \<and>
      normalizeSegments a res (seg # segs) = normalizeSegments a res' segs"
  proof (cases "seg = [] \<or> seg = ''.''")
    case True
    then have "normalizeSegments a res (seg # segs) = normalizeSegments a res segs" by auto
    with Cons.prems(1) show ?thesis by blast
  next
    case False
    show ?thesis
    proof (cases "seg = ''..''")
      case True
      have b: "\<forall>x \<in> set (butlast res). plainSegment x"
        using Cons.prems(1) by (auto dest: in_set_butlastD)
      have d: "\<forall>x \<in> set (res @ [''..'']). plainSegment x"
        using Cons.prems(1) by (simp add: plainSegment_def)
      have "normalizeSegments a res (seg # segs) = normalizeSegments a (butlast res) segs \<or>
            normalizeSegments a res (seg # segs) = normalizeSegments a (res @ [''..'']) segs \<or>
            normalizeSegments a res (seg # segs) = normalizeSegments a res segs"
        unfolding True by (simp only: normalizeSegments.simps split: if_splits) simp
      with b d Cons.prems(1) show ?thesis by blast
    next
      case nd: False
      have "plainSegment seg" using False Cons.prems(2) by (simp add: plainSegment_def)
      then have d: "\<forall>x \<in> set (res @ [seg]). plainSegment x" using Cons.prems(1) by simp
      have "normalizeSegments a res (seg # segs) = normalizeSegments a (res @ [seg]) segs"
        using False nd by simp
      with d show ?thesis by blast
    qed
  qed
  then obtain res' where r: "\<forall>x \<in> set res'. plainSegment x"
    and e: "normalizeSegments a res (seg # segs) = normalizeSegments a res' segs" by blast
  from Cons.IH [OF r t] show ?case unfolding e .
qed

lemma normalizeSegments_append:
  "normalizeSegments a res (xs @ ys) = normalizeSegments a (normalizeSegments a res xs) ys"
proof (induction xs arbitrary: res)
  case Nil
  then show ?case by simp
next
  case (Cons x xs)
  show ?case by (simp only: append_Cons normalizeSegments.simps Cons.IH split: if_splits) simp
qed

lemma normalizeSegments_no_dotdot:
  "''..'' \<notin> set ys \<Longrightarrow>
   normalizeSegments a res ys = res @ filter (\<lambda>seg. seg \<noteq> [] \<and> seg \<noteq> ''.'') ys"
  by (induction ys arbitrary: res) auto

lemma filter_plain: "\<forall>seg \<in> set segs. plainSegment seg \<Longrightarrow>
   filter (\<lambda>seg. seg \<noteq> [] \<and> seg \<noteq> ''.'') segs = segs"
  by (induction segs) (auto simp: plainSegment_def)

lemma normalized_plain:
  "\<forall>seg \<in> set (normalizeSegments a [] (splitSlash p)). plainSegment seg"
  by (rule normalizeSegments_plain) (auto dest: splitSlash_no_slash)

lemma pathSegments_of_normal:
  assumes "segs \<noteq> []" and "\<forall>seg \<in> set segs. plainSegment seg"
  shows "pathSegments (joinSegs segs) = segs"
    and "pathSegments (joinSegs segs @ ''/'') = segs"
    and "pathSegments (CHR ''/'' # joinSegs segs) = segs"
    and "pathSegments (CHR ''/'' # joinSegs segs @ ''/'') = segs"
proof -
  have ns: "\<forall>seg \<in> set segs. CHR ''/'' \<notin> set seg" using assms(2) by (simp add: plainSegment_def)
  have sp: "splitSlash (joinSegs segs) = segs" using assms(1) ns by (rule splitSlash_joinSegs)
  have sp2: "splitSlash (joinSegs segs @ ''/'') = segs @ [[]]"
    using splitSlash_append [of "joinSegs segs" "[]"] sp by simp
  note fp = filter_plain [OF assms(2)]
  show "pathSegments (joinSegs segs) = segs" by (simp add: pathSegments_def sp fp)
  show "pathSegments (joinSegs segs @ ''/'') = segs" by (simp only: pathSegments_def sp2) (simp add: fp)
  show "pathSegments (CHR ''/'' # joinSegs segs) = segs" by (simp add: pathSegments_def sp fp)
  show "pathSegments (CHR ''/'' # joinSegs segs @ ''/'') = segs"
    by (simp only: pathSegments_def splitSlash.simps sp2 if_True) (simp add: fp)
qed

lemma pathSegments_normalize:
  assumes "p \<noteq> []"
  shows "pathSegments (path_normalize p) = normalizeSegments (\<not> isAbsolute p) [] (splitSlash p)"
proof -
  define N where "N = normalizeSegments (\<not> isAbsolute p) [] (splitSlash p)"
  have pl: "\<forall>seg \<in> set N. plainSegment seg" unfolding N_def by (rule normalized_plain)
  have pn: "path_normalize p =
     (if joinSegs N = [] then (if isAbsolute p then ''/'' else if last p = CHR ''/'' then ''./'' else ''.'')
      else (if isAbsolute p then ''/'' else []) @ joinSegs N @
           (if last p = CHR ''/'' then ''/'' else []))"
    using assms by (simp add: path_normalize_def Let_def N_def)
  show ?thesis
  proof (cases "N = []")
    case True
    then have "pathSegments (path_normalize p) = []"
      unfolding pn by (simp add: pathSegments_def)
    with True show ?thesis by (simp add: N_def)
  next
    case False
    then have ne: "joinSegs N \<noteq> []" using joinSegs_hd pl by blast
    have "pathSegments (path_normalize p) = N"
      unfolding pn using ne pathSegments_of_normal [OF False pl] by simp
    then show ?thesis by (simp add: N_def)
  qed
qed

lemma isAbsolute_normalize: "isAbsolute (path_normalize p) = isAbsolute p"
proof (cases "p = []")
  case True
  then show ?thesis by (simp add: path_normalize_def isAbsolute_def)
next
  case False
  define N where "N = normalizeSegments (\<not> isAbsolute p) [] (splitSlash p)"
  have pl: "\<forall>seg \<in> set N. plainSegment seg" unfolding N_def by (rule normalized_plain)
  have pn: "path_normalize p =
     (if joinSegs N = [] then (if isAbsolute p then ''/'' else if last p = CHR ''/'' then ''./'' else ''.'')
      else (if isAbsolute p then ''/'' else []) @ joinSegs N @
           (if last p = CHR ''/'' then ''/'' else []))"
    using False by (simp add: path_normalize_def Let_def N_def)
  show ?thesis
  proof (cases "joinSegs N = []")
    case True
    then show ?thesis unfolding pn by (cases "isAbsolute p") (simp_all add: isAbsolute_def)
  next
    case nonempty: False
    then have "N \<noteq> []" by auto
    then have h: "hd (joinSegs N) \<noteq> CHR ''/''" using joinSegs_hd pl by blast
    have "isAbsolute (joinSegs N @ (if last p = CHR ''/'' then ''/'' else [])) = False"
      using nonempty h by (simp add: isAbsolute_def)
    moreover have "isAbsolute (''/'' @ joinSegs N @ (if last p = CHR ''/'' then ''/'' else []))"
      by (simp add: isAbsolute_def)
    ultimately show ?thesis unfolding pn using nonempty by (cases "isAbsolute p") simp_all
  qed
qed

lemma join_inside:
  assumes "dir \<noteq> []" and "''..'' \<notin> set (splitSlash file)"
  shows "insideDir dir (path_join dir file)"
proof (cases "file = []")
  case True
  then have "path_join dir file = path_normalize dir" using assms(1) by (simp add: path_join_def)
  then show ?thesis by (simp add: insideDir_def Let_def isAbsolute_normalize)
next
  case False
  let ?p = "dir @ CHR ''/'' # file"
  let ?D = "pathSegments (path_normalize dir)"
  have j: "path_join dir file = path_normalize ?p"
    using assms(1) False by (simp add: path_join_def)
  have ab: "isAbsolute ?p = isAbsolute dir" using assms(1) by (simp add: isAbsolute_def)
  have "pathSegments (path_normalize ?p) =
      normalizeSegments (\<not> isAbsolute dir) [] (splitSlash dir @ splitSlash file)"
    using pathSegments_normalize [of ?p] by (simp add: ab splitSlash_append)
  also have "\<dots> = normalizeSegments (\<not> isAbsolute dir) ?D (splitSlash file)"
    using pathSegments_normalize [OF assms(1)] by (simp add: normalizeSegments_append)
  also have "\<dots> = ?D @ filter (\<lambda>seg. seg \<noteq> [] \<and> seg \<noteq> ''.'') (splitSlash file)"
    using assms(2) by (rule normalizeSegments_no_dotdot)
  finally have seg: "pathSegments (path_join dir file) =
      ?D @ filter (\<lambda>seg. seg \<noteq> [] \<and> seg \<noteq> ''.'') (splitSlash file)"
    by (simp add: j)
  have "isAbsolute (path_join dir file) = isAbsolute dir"
    by (simp add: j isAbsolute_normalize ab)
  with seg assms(2) show ?thesis by (simp add: insideDir_def Let_def)
qed

text \<open>
  Claim C8, as stated, fails: the route parameter \<open>../secret.png\<close> (sent as
  \<open>..%2Fsecret.png\<close>) resolves to a file next to the output directory, which is
  served when it exists.
\<close>

theorem screenshot_path_counterexample:
  "get_screenshot ''/home/u/Desktop/screenshots'' (\<lambda>p. p = ''/home/u/Desktop/secret.png'')
      ''../secret.png'' = SendFile ''/home/u/Desktop/secret.png'' \<and>
   \<not> insideDir ''/home/u/Desktop/screenshots'' ''/home/u/Desktop/secret.png''"
  by (simp add: get_screenshot_def path_join_def path_normalize_def isAbsolute_def
      insideDir_def pathSegments_def)

text \<open>
  Claim C8, amended. The path that is looked up and served is the normalised join of
  the output directory and the file name; status 404 is returned when it does not
  exist. It lies within the output directory whenever no segment of the file name is
  \<open>..\<close>.
\<close>

theorem screenshot_path:
  "get_screenshot outDir existsSync file =
     (if existsSync (path_join outDir file) then SendFile (path_join outDir file)
      else ErrorResponse 404 ''Screenshot not found'') \<and>
   (outDir \<noteq> [] \<and> ''..'' \<notin> set (splitSlash file) \<longrightarrow>
      insideDir outDir (path_join outDir file))"
  using join_inside [of outDir "file"] by (simp add: get_screenshot_def Let_def)

theorem screenshot_path_witness:
  "''/home/u/Desktop/screenshots'' \<noteq> [] \<and>
   ''..'' \<notin> set (splitSlash ''screenshot-2025-11-28T05-36-11-833Z.png'') \<and>
   get_screenshot ''/home/u/Desktop/screenshots'' (\<lambda>p. True)
      ''screenshot-2025-11-28T05-36-11-833Z.png'' =
     SendFile ''/home/u/Desktop/screenshots/screenshot-2025-11-28T05-36-11-833Z.png'' \<and>
   insideDir ''/home/u/Desktop/screenshots''
     (path_join ''/home/u/Desktop/screenshots'' ''screenshot-2025-11-28T05-36-11-833Z.png'')"
  using screenshot_path [of "''/home/u/Desktop/screenshots''" "\<lambda>p. True"
      "''screenshot-2025-11-28T05-36-11-833Z.png''"]
  by (simp add: path_join_def path_normalize_def isAbsolute_def)

subsection \<open>The list of screenshots\<close>

lemma statAll_ok:
  "\<forall>f \<in> set files. \<exists>st. statSync (path_join dir f) = Inr st \<Longrightarrow>
   \<exists>entries. statAll statSync dir files = Inr entries \<and>
      map filename entries = files \<and>
      (\<forall>e \<in> set entries. path e = path_join dir (filename e) \<and>
         (\<exists>st. statSync (path_join dir (filename e)) = Inr st \<and>
               birthtime st = created e \<and> size_bytes st = size_of e))"
proof (induction files)
  case Nil
  then show ?case by simp
next
  case (Cons f files)
  from Cons.prems obtain st where st: "statSync (path_join dir f) = Inr st" by auto
  from Cons obtain entries where e: "statAll statSync dir files = Inr entries"
    "map filename entries = files"
    "\<forall>e \<in> set entries. path e = path_join dir (filename e) \<and>
       (\<exists>st. statSync (path_join dir (filename e)) = Inr st \<and>
             birthtime st = created e \<and> size_bytes st = size_of e)"
    by auto
  show ?case using st e by simp
qed

lemma statAll_fail:
  "\<exists>f \<in> set files. \<exists>e. statSync (path_join dir f) = Inl e \<Longrightarrow>
   \<exists>f \<in> set files. \<exists>e. statSync (path_join dir f) = Inl e \<and> statAll statSync dir files = Inl e"
proof (induction files)
  case Nil
  then show ?case by simp
next
  case (Cons f files)
  show ?case
  proof (cases "statSync (path_join dir f)")
    case (Inl e)
    then show ?thesis by auto
  next
    case (Inr st)
    with Cons.prems have "\<exists>f \<in> set files. \<exists>e. statSync (path_join dir f) = Inl e" by auto
    from Cons.IH [OF this] obtain f' e where
      "f' \<in> set files" "statSync (path_join dir f') = Inl e" "statAll statSync dir files = Inl e"
      by blast
    with Inr show ?thesis by auto
  qed
qed

lemma example_paths:
  "path_join ''/shots'' ''screenshot-a.png'' = ''/shots/screenshot-a.png''"
  "path_join ''/shots'' ''screenshot-b.png'' = ''/shots/screenshot-b.png''"
  "path_join ''/shots'' ''screenshot-c.png'' = ''/shots/screenshot-c.png''"
  "path_join ''/shots'' ''screenshot-old.png'' = ''/shots/screenshot-old.png''"
  "path_join ''/shots'' ''screenshot-link.png'' = ''/shots/screenshot-link.png''"
  by (simp_all add: path_join_def path_normalize_def isAbsolute_def)

lemma example_names:
  "filter isScreenshotName exampleDir = [''screenshot-a.png'', ''screenshot-b.png'', ''screenshot-c.png'']"
  "isScreenshotName ''screenshot-a.png''" "isScreenshotName ''screenshot-old.png''"
  "isScreenshotName ''screenshot-link.png''"
  by (simp_all add: exampleDir_def isScreenshotName_def startsWith_def endsWith_def)

text \<open>
  Claim C6, as stated, fails: with a matching entry whose metadata cannot be read (a
  link whose target is gone) the handler answers status 500 and lists nothing; and an
  entry that is not a file (a directory named like a screenshot) is listed.
\<close>

theorem list_screenshots_counterexample:
  "list_screenshots ''/shots'' (Listing [''screenshot-a.png'', ''screenshot-link.png''])
      exampleStat = ErrorResponse 500 ''ENOENT: no such file or directory'' \<and>
   list_screenshots ''/shots'' (Listing [''screenshot-old.png'', ''screenshot-a.png''])
      exampleStat =
     ScreenshotList
       [\<lparr> filename = ''screenshot-a.png'', path = ''/shots/screenshot-a.png'',
          created = 10, size_of = 100 \<rparr>,
        \<lparr> filename = ''screenshot-old.png'', path = ''/shots/screenshot-old.png'',
          created = 5, size_of = 4096 \<rparr>] \<and>
   exampleStat ''/shots/screenshot-old.png'' =
     Inr \<lparr> birthtime = 5, size_bytes = 4096, is_file = False \<rparr>"
  by (simp add: list_screenshots_def example_names example_paths exampleStat_def)

text \<open>
  Claim C6, amended. When the output directory does not exist the list is empty. When
  the directory can be read and so can the metadata of every matching entry, the list
  holds exactly the directory entries, of whatever kind, whose names start with
  \<open>screenshot-\<close> and end with \<open>.png\<close>, each with its name, its path, and the
  creation time and the size from its metadata, in descending order of creation time.
  When reading the directory throws, or reading the metadata of a matching entry
  does, the answer is status 500 with the message of that exception.
\<close>

theorem list_screenshots_sorted:
  "list_screenshots outDir Missing statSync = ScreenshotList [] \<and>
   list_screenshots outDir (Unreadable err) statSync = ErrorResponse 500 err \<and>
   ((\<forall>f \<in> set names. isScreenshotName f \<longrightarrow>
        (\<exists>st. statSync (path_join outDir f) = Inr st)) \<longrightarrow>
    (\<exists>files. list_screenshots outDir (Listing names) statSync = ScreenshotList files \<and>
       mset (map filename files) = mset (filter isScreenshotName names) \<and>
       sorted_wrt (\<lambda>a b. created a \<ge> created b) files \<and>
       (\<forall>e \<in> set files. path e = path_join outDir (filename e) \<and>
          (\<exists>st. statSync (path_join outDir (filename e)) = Inr st \<and>
                birthtime st = created e \<and> size_bytes st = size_of e)))) \<and>
   ((\<exists>f \<in> set names. isScreenshotName f \<and> (\<exists>e. statSync (path_join outDir f) = Inl e)) \<longrightarrow>
    (\<exists>f \<in> set names. \<exists>e. isScreenshotName f \<and> statSync (path_join outDir f) = Inl e \<and>
       list_screenshots outDir (Listing names) statSync = ErrorResponse 500 e))"
proof -
  have m: "list_screenshots outDir Missing statSync = ScreenshotList []"
    by (simp add: list_screenshots_def)
  have u: "list_screenshots outDir (Unreadable err) statSync = ErrorResponse 500 err"
    by (simp add: list_screenshots_def)
  have l: "(\<forall>f \<in> set names. isScreenshotName f \<longrightarrow>
        (\<exists>st. statSync (path_join outDir f) = Inr st)) \<longrightarrow>
    (\<exists>files. list_screenshots outDir (Listing names) statSync = ScreenshotList files \<and>
       mset (map filename files) = mset (filter isScreenshotName names) \<and>
       sorted_wrt (\<lambda>a b. created a \<ge> created b) files \<and>
       (\<forall>e \<in> set files. path e = path_join outDir (filename e) \<and>
          (\<exists>st. statSync (path_join outDir (filename e)) = Inr st \<and>
                birthtime st = created e \<and> size_bytes st = size_of e)))"
  proof
    assume h: "\<forall>f \<in> set names. isScreenshotName f \<longrightarrow>
        (\<exists>st. statSync (path_join outDir f) = Inr st)"
    then have "\<forall>f \<in> set (filter isScreenshotName names).
        \<exists>st. statSync (path_join outDir f) = Inr st" by simp
    from statAll_ok [OF this] obtain entries where
      e: "statAll statSync outDir (filter isScreenshotName names) = Inr entries"
      and f: "map filename entries = filter isScreenshotName names"
      and g: "\<forall>e \<in> set entries. path e = path_join outDir (filename e) \<and>
          (\<exists>st. statSync (path_join outDir (filename e)) = Inr st \<and>
                birthtime st = created e \<and> size_bytes st = size_of e)"
      by blast
    let ?files = "sort_key (\<lambda>f. - created f) entries"
    have 1: "list_screenshots outDir (Listing names) statSync = ScreenshotList ?files"
      by (simp add: list_screenshots_def e)
    have "mset ?files = mset entries" by simp
    then have "image_mset filename (mset ?files) = image_mset filename (mset entries)"
      by (rule arg_cong)
    then have "mset (map filename ?files) = mset (map filename entries)"
      by (simp only: mset_map)
    then have 2: "mset (map filename ?files) = mset (filter isScreenshotName names)"
      by (simp add: f)
    have "sorted (map (\<lambda>f. - created f) ?files)" by (rule sorted_sort_key)
    then have 3: "sorted_wrt (\<lambda>a b. created a \<ge> created b) ?files"
      by (simp add: sorted_map)
    have 4: "\<forall>e \<in> set ?files. path e = path_join outDir (filename e) \<and>
          (\<exists>st. statSync (path_join outDir (filename e)) = Inr st \<and>
                birthtime st = created e \<and> size_bytes st = size_of e)"
      using g by simp
    from 1 2 3 4 show "\<exists>files. list_screenshots outDir (Listing names) statSync = ScreenshotList files \<and>
       mset (map filename files) = mset (filter isScreenshotName names) \<and>
       sorted_wrt (\<lambda>a b. created a \<ge> created b) files \<and>
       (\<forall>e \<in> set files. path e = path_join outDir (filename e) \<and>
          (\<exists>st. statSync (path_join outDir (filename e)) = Inr st \<and>
                birthtime st = created e \<and> size_bytes st = size_of e))" by blast
  qed
  have x: "(\<exists>f \<in> set names. isScreenshotName f \<and> (\<exists>e. statSync (path_join outDir f) = Inl e)) \<longrightarrow>
    (\<exists>f \<in> set names. \<exists>e. isScreenshotName f \<and> statSync (path_join outDir f) = Inl e \<and>
       list_screenshots outDir (Listing names) statSync = ErrorResponse 500 e)"
  proof
    assume "\<exists>f \<in> set names. isScreenshotName f \<and> (\<exists>e. statSync (path_join outDir f) = Inl e)"
    then have "\<exists>f \<in> set (filter isScreenshotName names). \<exists>e. statSync (path_join outDir f) = Inl e"
      by auto
    from statAll_fail [OF this] obtain f e where
      fe: "f \<in> set (filter isScreenshotName names)" "statSync (path_join outDir f) = Inl e"
      "statAll statSync outDir (filter isScreenshotName names) = Inl e" by blast
    then have "list_screenshots outDir (Listing names) statSync = ErrorResponse 500 e"
      by (simp add: list_screenshots_def)
    with fe show "\<exists>f \<in> set names. \<exists>e. isScreenshotName f \<and> statSync (path_join outDir f) = Inl e \<and>
       list_screenshots outDir (Listing names) statSync = ErrorResponse 500 e" by auto
  qed
  from m u l x show ?thesis by blast
qed

theorem list_screenshots_sorted_witness:
  "list_screenshots ''/shots'' (Listing exampleDir) exampleStat =
     ScreenshotList
       [\<lparr> filename = ''screenshot-b.png'', path = ''/shots/screenshot-b.png'', created = 30, size_of = 300 \<rparr>,
        \<lparr> filename = ''screenshot-c.png'', path = ''/shots/screenshot-c.png'', created = 20, size_of = 200 \<rparr>,
        \<lparr> filename = ''screenshot-a.png'', path = ''/shots/screenshot-a.png'', created = 10, size_of = 100 \<rparr>] \<and>
   isScreenshotName ''screenshot-link.png'' \<and>
   exampleStat (path_join ''/shots'' ''screenshot-link.png'') =
     Inl ''ENOENT: no such file or directory'' \<and>
   list_screenshots ''/shots'' (Listing [''screenshot-link.png'']) exampleStat =
     ErrorResponse 500 ''ENOENT: no such file or directory''"
  using list_screenshots_sorted [of "''/shots''" exampleStat _ exampleDir]
    list_screenshots_sorted [of "''/shots''" exampleStat _ "[''screenshot-link.png'']"]
  by (simp add: list_screenshots_def example_names example_paths exampleStat_def)

section \<open>Properties of the capture routines\<close>

lemma quiet_return: "quiet (io_return x)"
  by (simp add: quiet_def io_return_def)

lemma quiet_throw: "quiet (io_throw e)"
  by (simp add: quiet_def io_throw_def)

lemma quiet_perform: "\<not> isSetTimeout a \<Longrightarrow> quiet (perform w a)"
  by (simp add: quiet_def perform_def)

lemma quiet_bind:
  assumes "quiet m" and "\<And>x. quiet (f x)"
  shows "quiet (io_bind m f)"
  unfolding quiet_def
proof
  fix s
  obtain r s' where ms: "m s = (r, s')" by (cases "m s")
  from assms(1) obtain r1 where r1: "trace s' = trace s @ r1" "filter isSetTimeout r1 = []"
    unfolding quiet_def using ms by (metis snd_conv)
  show "\<exists>rest. trace (snd (io_bind m f s)) = trace s @ rest \<and> filter isSetTimeout rest = []"
  proof (cases r)
    case (Inl e)
    with ms r1 show ?thesis by (simp add: io_bind_def)
  next
    case (Inr x)
    from assms(2) [of x] obtain r2 where
      r2: "trace (snd (f x s')) = trace s' @ r2" "filter isSetTimeout r2 = []"
      unfolding quiet_def by blast
    have "trace (snd (io_bind m f s)) = trace s @ (r1 @ r2)"
      using Inr ms r1 r2 by (simp add: io_bind_def)
    moreover have "filter isSetTimeout (r1 @ r2) = []" using r1 r2 by simp
    ultimately show ?thesis by blast
  qed
qed

lemma quiet_tryCatch:
  assumes "quiet m" and "\<And>e. quiet (h e)"
  shows "quiet (tryCatch m h)"
  unfolding quiet_def
proof
  fix s
  obtain r s' where ms: "m s = (r, s')" by (cases "m s")
  from assms(1) obtain r1 where r1: "trace s' = trace s @ r1" "filter isSetTimeout r1 = []"
    unfolding quiet_def using ms by (metis snd_conv)
  show "\<exists>rest. trace (snd (tryCatch m h s)) = trace s @ rest \<and> filter isSetTimeout rest = []"
  proof (cases r)
    case (Inr x)
    with ms r1 show ?thesis by (simp add: tryCatch_def)
  next
    case (Inl e)
    from assms(2) [of e] obtain r2 where
      r2: "trace (snd (h e s')) = trace s' @ r2" "filter isSetTimeout r2 = []"
      unfolding quiet_def by blast
    have "trace (snd (tryCatch m h s)) = trace s @ (r1 @ r2)"
      using Inl ms r1 r2 by (simp add: tryCatch_def)
    moreover have "filter isSetTimeout (r1 @ r2) = []" using r1 r2 by simp
    ultimately show ?thesis by blast
  qed
qed

lemma quiet_seq: "\<forall>m \<in> set ms. quiet m \<Longrightarrow> quiet (seq ms)"
  by (induction ms) (simp_all add: quiet_return quiet_bind)

lemma quiet_swallow: "quiet m \<Longrightarrow> quiet (swallow m)"
  unfolding swallow_def by (rule quiet_tryCatch) (simp_all add: quiet_return)

lemma quiet_launch: "quiet (launch w)"
  unfolding launch_def
  by (rule quiet_bind) (simp_all add: quiet_perform, simp add: quiet_def)

lemma quiet_navigate: "quiet (navigate w u wu)"
  unfolding navigate_def by (rule quiet_tryCatch) (simp_all add: quiet_perform)

lemma quiet_scroll: "quiet (scroll w n d)"
  unfolding scroll_def by (auto intro!: quiet_seq simp: quiet_return quiet_perform)

lemma quiet_prewarm: "quiet (prewarm w cfg wu d)"
  unfolding prewarm_def
  by (rule quiet_seq)
     (simp add: quiet_perform quiet_launch quiet_navigate quiet_swallow quiet_scroll)

lemma quiet_closeIfLaunched: "quiet (closeIfLaunched w)"
  using quiet_perform [of CloseBrowser w]
  by (simp add: quiet_def closeIfLaunched_def)

lemma after_success:
  "fst (m s) = Inr x \<Longrightarrow>
   tryCatch (io_bind (io_bind m f) k) h s = tryCatch (io_bind (f x) k) h (snd (m s))"
  by (cases "m s") (simp add: tryCatch_def io_bind_def)

lemma after_failure:
  "fst (m s) = Inl e \<Longrightarrow> tryCatch (io_bind (io_bind m f) k) h s = h e (snd (m s))"
  by (cases "m s") (simp add: tryCatch_def io_bind_def)

lemma io_bind_assoc: "io_bind (io_bind m f) g = io_bind m (\<lambda>x. io_bind (f x) g)"
  by (rule ext) (simp add: io_bind_def split: prod.splits sum.splits)

lemma waitForTarget_run:
  "waitForTarget target c s =
     (Inr (), s\<lparr> trace := trace s @
        (if target - readyAt c > 0 then [SetTimeout (target - readyAt c)] else []) \<rparr>)"
  by (simp add: waitForTarget_def Let_def emit_def io_return_def)

lemma wait_shape:
  fixes P :: "unit io" and steps rest :: "unit io list" and k :: "unit \<Rightarrow> 'a io"
    and h :: "string \<Rightarrow> 'a io" and target t :: msec and c :: clocks and w :: world
  assumes qP: "quiet P" and qS: "\<forall>m \<in> set steps. quiet m" and qT: "\<forall>m \<in> set rest. quiet m"
    and qk: "\<And>x. quiet (k x)" and qh: "\<And>e. quiet (h e)"
  defines "R \<equiv> tryCatch (io_bind (seq (P # waitForTarget target c #
                  seq (perform w (InjectOverlay t) # steps) # rest)) k) h"
    and "W \<equiv> (if target - readyAt c > 0 then [SetTimeout (target - readyAt c)] else [])"
  shows "filter isSetTimeout (trace (snd (R s))) =
           filter isSetTimeout (trace s) @ (if fst (P s) = Inr () then W else [])"
    and "fst (P s) = Inr () \<Longrightarrow>
           \<exists>tl. trace (snd (R s)) = trace (snd (P s)) @ W @ InjectOverlay t # tl"
proof -
  obtain r1 where r1: "trace (snd (P s)) = trace s @ r1" "filter isSetTimeout r1 = []"
    using qP unfolding quiet_def by blast
  have Rdef: "R = tryCatch (io_bind (io_bind P (\<lambda>_. seq (waitForTarget target c #
                  seq (perform w (InjectOverlay t) # steps) # rest))) k) h"
    by (simp add: R_def)
  have ok: "\<exists>tl. trace (snd (R s)) = trace (snd (P s)) @ W @ InjectOverlay t # tl \<and>
                filter isSetTimeout tl = []" if ok: "fst (P s) = Inr ()"
  proof -
    let ?s1 = "snd (P s)"
    let ?s2 = "?s1\<lparr> trace := trace ?s1 @ W \<rparr>"
    let ?s3 = "?s2\<lparr> trace := trace ?s2 @ [InjectOverlay t] \<rparr>"
    let ?I = "perform w (InjectOverlay t)"
    have w2: "waitForTarget target c ?s1 = (Inr (), ?s2)"
      by (simp add: waitForTarget_run W_def)
    have 1: "R s = tryCatch (io_bind (seq (waitForTarget target c #
                  seq (?I # steps) # rest)) k) h ?s1"
      unfolding Rdef using ok by (rule after_success)
    have 2: "\<dots> = tryCatch (io_bind (seq (seq (?I # steps) # rest)) k) h ?s2"
      using after_success [of "waitForTarget target c" ?s1 "()"
          "\<lambda>_. seq (seq (?I # steps) # rest)" k h] w2
      by simp
    have 3: "seq (seq (?I # steps) # rest) =
        io_bind ?I (\<lambda>_. io_bind (seq steps) (\<lambda>_. seq rest))"
      by (simp add: io_bind_assoc)
    have s3: "snd (?I ?s2) = ?s3" by (simp add: perform_def)
    have "\<exists>tl. trace (snd (R s)) = trace ?s3 @ tl \<and> filter isSetTimeout tl = []"
    proof (cases "fst (?I ?s2)")
      case (Inl e)
      have "R s = h e (snd (?I ?s2))"
        unfolding 1 2 3 using Inl by (rule after_failure)
      then show ?thesis using qh [of e] unfolding quiet_def s3 by metis
    next
      case (Inr u)
      have "R s = tryCatch (io_bind (io_bind (seq steps) (\<lambda>_. seq rest)) k) h (snd (?I ?s2))"
        unfolding 1 2 3 using Inr by (rule after_success)
      moreover have "quiet (tryCatch (io_bind (io_bind (seq steps) (\<lambda>_. seq rest)) k) h)"
        using qS qT by (intro quiet_tryCatch quiet_bind quiet_seq qk qh)
      ultimately show ?thesis unfolding quiet_def s3 by metis
    qed
    then show ?thesis by simp
  qed
  show "fst (P s) = Inr () \<Longrightarrow>
           \<exists>tl. trace (snd (R s)) = trace (snd (P s)) @ W @ InjectOverlay t # tl"
    using ok by blast
  show "filter isSetTimeout (trace (snd (R s))) =
           filter isSetTimeout (trace s) @ (if fst (P s) = Inr () then W else [])"
  proof (cases "fst (P s)")
    case (Inr u)
    then have f: "fst (P s) = Inr ()" by simp
    from ok [OF f] obtain tl where
      tl: "trace (snd (R s)) = trace (snd (P s)) @ W @ InjectOverlay t # tl"
          "filter isSetTimeout tl = []" by blast
    have "filter isSetTimeout W = W" by (simp add: W_def)
    then show ?thesis using f tl r1 by simp
  next
    case (Inl e)
    have "R s = h e (snd (P s))" unfolding Rdef using Inl by (rule after_failure)
    moreover obtain r2 where "trace (snd (h e (snd (P s)))) = trace (snd (P s)) @ r2"
      "filter isSetTimeout r2 = []"
      using qh [of e] unfolding quiet_def by blast
    ultimately show ?thesis using Inl r1 by simp
  qed
qed

lemma quiet_handlers:
  "quiet (io_bind (closeIfLaunched w) (\<lambda>_. io_return (Failed e)))"
  "quiet (io_bind (closeIfLaunched w) (\<lambda>_. (io_throw e :: string io)))"
  by (simp_all add: quiet_bind quiet_closeIfLaunched quiet_return quiet_throw)

lemmas routine_defs =
  prewarm_def shoot_def launch_def navigate_def scroll_def swallow_def waitForTarget_def
  closeIfLaunched_def perform_def emit_def io_bind_def io_return_def io_throw_def tryCatch_def
  idle_def primaryWait_def calm_def offline_def Let_def

lemma ex_fields:
  "url exampleConfig = ''https://kimpga.com/''" "screenshotPath exampleConfig = ''/shots''"
  "scrollCount exampleConfig = 1" "scrollDelay exampleConfig = 500"
  "waitForNetworkIdle exampleConfig = False"
  "readyAt exampleClocks = 88000" "lag exampleClocks = 0"
  "readyAt farClocks = 12001" "lag farClocks = 0"
  by (simp_all add: exampleConfig_def exampleClocks_def farClocks_def)



text \<open>
  What both exact-time routines do once the preparation of the page has completed: if
  the target minus the clock read at that moment is positive, the next call is one
  timer wait with exactly that delay, followed at once by the overlay injection that
  starts the capture; if it is not positive, the overlay injection follows the
  preparation directly. The routine makes no other timer wait, and none at all when
  the preparation fails. The wait lasts as long as the delay says when the delay is
  within the limit of the runtime.
\<close>

lemma exact_time_wait:
  "(fst (prewarm w cfg (primaryWait cfg) (scrollDelay cfg) idle) = Inr () \<longrightarrow>
      (\<exists>tl. trace (snd (server_takeScreenshotAtExactTime w cfg c target idle)) =
         trace (snd (prewarm w cfg (primaryWait cfg) (scrollDelay cfg) idle)) @
         (if target - readyAt c > 0 then [SetTimeout (target - readyAt c)] else []) @
         InjectOverlay (captureTime target c) # tl)) \<and>
   filter isSetTimeout (trace (snd (server_takeScreenshotAtExactTime w cfg c target idle))) =
     (if fst (prewarm w cfg (primaryWait cfg) (scrollDelay cfg) idle) = Inr () \<and>
         target - readyAt c > 0
      then [SetTimeout (target - readyAt c)] else []) \<and>
   (fst (prewarm w cfg ''domcontentloaded'' 500 idle) = Inr () \<longrightarrow>
      (\<exists>tl. trace (snd (cli_takeScreenshotAtExactTime w cfg c target idle)) =
         trace (snd (prewarm w cfg ''domcontentloaded'' 500 idle)) @
         (if target - readyAt c > 0 then [SetTimeout (target - readyAt c)] else []) @
         InjectOverlay (captureTime target c) # tl)) \<and>
   filter isSetTimeout (trace (snd (cli_takeScreenshotAtExactTime w cfg c target idle))) =
     (if fst (prewarm w cfg ''domcontentloaded'' 500 idle) = Inr () \<and> target - readyAt c > 0
      then [SetTimeout (target - readyAt c)] else [])"
proof -
  let ?steps = "[perform w (WaitForTimeout 300), perform w (Screenshot (filepathOf cfg c)),
                 perform w CloseBrowser]"
  let ?steps' = "[perform w (WaitForTimeout 100), perform w (Screenshot (filepathOf cfg c)),
                 perform w CloseBrowser]"
  have qs: "\<forall>m \<in> set ?steps. quiet m" "\<forall>m \<in> set ?steps'. quiet m"
    by (simp_all add: quiet_perform)
  have qo: "\<forall>m \<in> set [swallow (perform w (OpenScreenshot (filepathOf cfg c)))]. quiet m"
    by (simp add: quiet_swallow quiet_perform)
  have qn: "\<forall>m \<in> set ([] :: unit io list). quiet m" by simp
  have sv: "server_takeScreenshotAtExactTime w cfg c target =
      tryCatch (io_bind (seq (prewarm w cfg (primaryWait cfg) (scrollDelay cfg) #
          waitForTarget target c # seq (perform w (InjectOverlay (captureTime target c)) # ?steps) # []))
          (\<lambda>_. io_return (Captured (filepathOf cfg c) (screenshotName (isoStamp c)))))
        (\<lambda>e. io_bind (closeIfLaunched w) (\<lambda>_. io_return (Failed e)))"
    by (simp only: server_takeScreenshotAtExactTime_def
        server_takeScreenshotAtExactTime_body_def shoot_def)
  have cl: "cli_takeScreenshotAtExactTime w cfg c target =
      tryCatch (io_bind (seq (prewarm w cfg ''domcontentloaded'' 500 #
          waitForTarget target c # seq (perform w (InjectOverlay (captureTime target c)) # ?steps') #
          [swallow (perform w (OpenScreenshot (filepathOf cfg c)))]))
          (\<lambda>_. io_return (filepathOf cfg c)))
        (\<lambda>e. io_bind (closeIfLaunched w) (\<lambda>_. io_throw e))"
    by (simp only: cli_takeScreenshotAtExactTime_def
        cli_takeScreenshotAtExactTime_body_def shoot_def)
  note s1 = wait_shape [where P = "prewarm w cfg (primaryWait cfg) (scrollDelay cfg)"
      and steps = ?steps and rest = "[]" and w = w and t = "captureTime target c" and c = c
      and target = target
      and k = "\<lambda>_. io_return (Captured (filepathOf cfg c) (screenshotName (isoStamp c)))"
      and h = "\<lambda>e. io_bind (closeIfLaunched w) (\<lambda>_. io_return (Failed e))",
      OF quiet_prewarm qs(1) qn quiet_return quiet_handlers(1), folded sv]
  note s2 = wait_shape [where P = "prewarm w cfg ''domcontentloaded'' 500"
      and steps = ?steps' and rest = "[swallow (perform w (OpenScreenshot (filepathOf cfg c)))]"
      and w = w and t = "captureTime target c" and c = c and target = target
      and k = "\<lambda>_. io_return (filepathOf cfg c)"
      and h = "\<lambda>e. io_bind (closeIfLaunched w) (\<lambda>_. io_throw e)",
      OF quiet_prewarm qs(2) qo quiet_return quiet_handlers(2), folded cl]
  have a: "fst (prewarm w cfg (primaryWait cfg) (scrollDelay cfg) idle) = Inr () \<longrightarrow>
      (\<exists>tl. trace (snd (server_takeScreenshotAtExactTime w cfg c target idle)) =
         trace (snd (prewarm w cfg (primaryWait cfg) (scrollDelay cfg) idle)) @
         (if target - readyAt c > 0 then [SetTimeout (target - readyAt c)] else []) @
         InjectOverlay (captureTime target c) # tl)"
    using s1(2) by blast
  have b: "filter isSetTimeout (trace (snd (server_takeScreenshotAtExactTime w cfg c target idle))) =
     (if fst (prewarm w cfg (primaryWait cfg) (scrollDelay cfg) idle) = Inr () \<and>
         target - readyAt c > 0
      then [SetTimeout (target - readyAt c)] else [])"
    using s1(1) [of idle] by (simp add: idle_def)
  have c: "fst (prewarm w cfg ''domcontentloaded'' 500 idle) = Inr () \<longrightarrow>
      (\<exists>tl. trace (snd (cli_takeScreenshotAtExactTime w cfg c target idle)) =
         trace (snd (prewarm w cfg ''domcontentloaded'' 500 idle)) @
         (if target - readyAt c > 0 then [SetTimeout (target - readyAt c)] else []) @
         InjectOverlay (captureTime target c) # tl)"
    using s2(2) by blast
  have d: "filter isSetTimeout (trace (snd (cli_takeScreenshotAtExactTime w cfg c target idle))) =
     (if fst (prewarm w cfg ''domcontentloaded'' 500 idle) = Inr () \<and> target - readyAt c > 0
      then [SetTimeout (target - readyAt c)] else [])"
    using s2(1) [of idle] by (simp add: idle_def)
  from a b c d show ?thesis by blast
qed

lemma captureTime_in_range:
  "0 < target - readyAt c \<Longrightarrow> target - readyAt c \<le> TIMEOUT_MAX \<Longrightarrow>
   captureTime target c = target + int (lag c)"
  by (simp add: captureTime_def Let_def nodeTimeout_def)

lemma captureTime_passed:
  "target \<le> readyAt c \<Longrightarrow> captureTime target c = readyAt c + int (lag c)"
  by (simp add: captureTime_def Let_def)

lemma far_filepath:
  "filepathOf exampleConfig farClocks = ''/shots/screenshot-2025-11-28T05-36-11-833Z.png''"
  by (simp add: filepathOf_def exampleConfig_def farClocks_def screenshotName_def
      path_join_def path_normalize_def isAbsolute_def)

text \<open>
  Claim C4 holds for delays within the limit of the runtime, and the code breaks it
  beyond. The command-line scheduler is started at clock 0 for a target 30 days ahead.
  \<open>main\<close> accepts the target; the delay of the backup timeout is above
  \<open>2^31 - 1\<close> ms, so the runtime runs it after 1 ms and the preparation begins. When
  the page is ready the target is still more than \<open>2^31 - 1\<close> ms away: the routine
  calls \<open>setTimeout\<close> with that delay, the runtime waits 1 ms, and the overlay is
  injected and the screenshot taken at clock 12002, 30 days before the target.
\<close>

theorem exact_time_wait_overflow:
  "main (\<lambda>x. Some farTarget) 0 0 [''1970-01-31T00:00:00Z''] =
     Running (scheduleWithPeriodicChecks farTarget 0) \<and>
   backupTimer (scheduleWithPeriodicChecks farTarget 0) = Some 2591985000 \<and>
   backupDue 0 (scheduleWithPeriodicChecks farTarget 0) = Some 1 \<and>
   fired (runGuard (scheduleWithPeriodicChecks farTarget 0)
            (punctualTrace 0 (scheduleWithPeriodicChecks farTarget 0) 1)) = [1] \<and>
   farTarget - readyAt farClocks = 2591987999 \<and>
   nodeTimeout 2591987999 = 1 \<and>
   trace (snd (cli_takeScreenshotAtExactTime calm exampleConfig farClocks farTarget idle)) =
     [EnsureDir ''/shots'', LaunchBrowser, NewContext, NewPage,
      Goto ''https://kimpga.com/'' ''domcontentloaded'' 60000,
      WaitForTimeout 2000, SwitchLanguage, SelectExchange, ScrollBy,
      WaitForTimeout 500, WaitForTimeout 1000, SetTimeout 2591987999,
      InjectOverlay 12002, WaitForTimeout 100,
      Screenshot ''/shots/screenshot-2025-11-28T05-36-11-833Z.png'',
      CloseBrowser,
      OpenScreenshot ''/shots/screenshot-2025-11-28T05-36-11-833Z.png''] \<and>
   captureTime farTarget farClocks = 12002 \<and>
   captureTime farTarget farClocks < farTarget"
proof -
  have g: "scheduleWithPeriodicChecks farTarget 0 =
      \<lparr> targetDate = 2592000000, earlyStartTime = 2591985000, hasExecuted = False,
        intervalActive = True, backupTimer = Some 2591985000, fired = [] \<rparr>"
    by (simp add: scheduleWithPeriodicChecks_def farTarget_def PROCESS_DURATION_MS_def)
  have m: "main (\<lambda>x. Some farTarget) 0 0 [''1970-01-31T00:00:00Z''] =
     Running (scheduleWithPeriodicChecks farTarget 0)"
    by (simp add: main_def farTarget_def)
  have d: "backupDue 0 (scheduleWithPeriodicChecks farTarget 0) = Some 1"
    unfolding g by (simp add: backupDue_def nodeTimeout_def TIMEOUT_MAX_def)
  have p: "punctualTrace 0 (scheduleWithPeriodicChecks farTarget 0) 1 =
      [BackupTimeout 1, IntervalTick 1000]"
    unfolding punctualTrace_def d by (simp add: pollTicks_def checkInterval_def)
  have f: "fired (runGuard (scheduleWithPeriodicChecks farTarget 0)
            (punctualTrace 0 (scheduleWithPeriodicChecks farTarget 0) 1)) = [1]"
    unfolding p unfolding g by (simp add: backupCallback_def)
  have n: "nodeTimeout 2591987999 = 1" by (simp add: nodeTimeout_def TIMEOUT_MAX_def)
  have c: "captureTime farTarget farClocks = 12002"
    by (simp add: captureTime_def farTarget_def farClocks_def Let_def nodeTimeout_def
        TIMEOUT_MAX_def)
  have t: "trace (snd (cli_takeScreenshotAtExactTime calm exampleConfig farClocks farTarget idle)) =
     [EnsureDir ''/shots'', LaunchBrowser, NewContext, NewPage,
      Goto ''https://kimpga.com/'' ''domcontentloaded'' 60000,
      WaitForTimeout 2000, SwitchLanguage, SelectExchange, ScrollBy,
      WaitForTimeout 500, WaitForTimeout 1000, SetTimeout 2591987999,
      InjectOverlay 12002, WaitForTimeout 100,
      Screenshot ''/shots/screenshot-2025-11-28T05-36-11-833Z.png'',
      CloseBrowser,
      OpenScreenshot ''/shots/screenshot-2025-11-28T05-36-11-833Z.png'']"
    unfolding cli_takeScreenshotAtExactTime_def cli_takeScreenshotAtExactTime_body_def c
    by (simp add: routine_defs ex_fields far_filepath farTarget_def)
  from g m d f n c t show ?thesis
    by (simp add: farTarget_def farClocks_def)
qed

subsection \<open>Exceptions at the boundary of a routine\<close>







end
